theory Spec2Isabelle
  imports Main "HOL-Library.Sublist" "HOL-Library.AList"
begin

section \<open>Python strings\<close>

text \<open>
  Python 2 \<open>str\<close> values are byte strings; they are modelled as \<open>string\<close>.
  \<open>str_replace old new s\<close> is \<open>s.replace(old, new)\<close> for a non-empty \<open>old\<close>: the
  text is scanned from the left, every occurrence found is replaced and the scan resumes
  behind it (occurrences never overlap). For an empty \<open>old\<close> Python puts \<open>new\<close> in front
  of every character and at the end.
\<close>

function replace_scan :: "string \<Rightarrow> string \<Rightarrow> string \<Rightarrow> string" where
  "replace_scan old new [] = []"
| "replace_scan old new (c # cs) =
     (if old \<noteq> [] \<and> prefix old (c # cs)
      then new @ replace_scan old new (drop (length old) (c # cs))
      else c # replace_scan old new cs)"
  by pat_completeness auto
termination
  by (relation "measure (\<lambda>(old, new, s). length s)") auto

definition str_replace :: "string \<Rightarrow> string \<Rightarrow> string \<Rightarrow> string" where
  "str_replace old new s =
     (if old = [] then new @ concat (map (\<lambda>c. c # new) s) else replace_scan old new s)"

text \<open>\<open>contains old s\<close> is Python's \<open>old in s\<close>.\<close>

fun contains :: "string \<Rightarrow> string \<Rightarrow> bool" where
  "contains old [] = (old = [])"
| "contains old (c # cs) = (prefix old (c # cs) \<or> contains old cs)"

definition endswith :: "string \<Rightarrow> string \<Rightarrow> bool" where
  "endswith s suf = suffix suf s"

definition is_space :: "char \<Rightarrow> bool" where
  "is_space c = (c \<in> set [CHR '' '', CHR 0x09, CHR 0x0A, CHR 0x0D, CHR 0x0B, CHR 0x0C])"

definition rstrip :: "string \<Rightarrow> string" where
  "rstrip s = rev (dropWhile is_space (rev s))"

section \<open>The working directory\<close>

text \<open>
  The working directory is a tree: a file holds its contents, a directory lists its
  entries by name, in the order in which the operating system lists them. A path is the
  list of its components below the working directory (\<open>os.path.join\<close> of them).
  Every failure of a file operation is a value of \<open>error\<close>, as is every other
  exception of the program.
\<close>

datatype node = File string | Dir "(string \<times> node) list"

type_synonym path = "string list"

datatype error =
    CalledProcessError int "string list"
  | ValueError string
  | StandardError string
  | OSError path
  | IOError path

fun lookup :: "path \<Rightarrow> node \<Rightarrow> node option" where
  "lookup [] n = Some n"
| "lookup (x # p) n =
     (case n of
        File c \<Rightarrow> None
      | Dir es \<Rightarrow> (case map_of es x of None \<Rightarrow> None | Some m \<Rightarrow> lookup p m))"

definition isdir :: "path \<Rightarrow> node \<Rightarrow> bool" where
  "isdir p fs = (case lookup p fs of Some (Dir es) \<Rightarrow> True | _ \<Rightarrow> False)"

text \<open>
  \<open>modify_dir d f fs\<close> rewrites the entry list of the directory at \<open>d\<close> with \<open>f\<close>;
  it is \<open>None\<close> when \<open>d\<close> is not a directory of \<open>fs\<close>.
\<close>

fun modify_dir ::
  "path \<Rightarrow> ((string \<times> node) list \<Rightarrow> (string \<times> node) list) \<Rightarrow> node \<Rightarrow> node option" where
  "modify_dir [] f n = (case n of File c \<Rightarrow> None | Dir es \<Rightarrow> Some (Dir (f es)))"
| "modify_dir (x # p) f n =
     (case n of
        File c \<Rightarrow> None
      | Dir es \<Rightarrow>
          (case map_of es x of
             None \<Rightarrow> None
           | Some m \<Rightarrow>
               (case modify_dir p f m of
                  None \<Rightarrow> None
                | Some m' \<Rightarrow> Some (Dir (AList.update x m' es)))))"

text \<open>\<open>os.mkdir\<close>: the parent must be a directory and the name must be free.\<close>

definition mkdir :: "path \<Rightarrow> string \<Rightarrow> node \<Rightarrow> error + node" where
  "mkdir d x fs =
     (case lookup (d @ [x]) fs of
        Some n \<Rightarrow> Inl (OSError (d @ [x]))
      | None \<Rightarrow>
          (case modify_dir d (AList.update x (Dir [])) fs of
             None \<Rightarrow> Inl (OSError (d @ [x]))
           | Some fs' \<Rightarrow> Inr fs'))"

text \<open>\<open>shutil.rmtree\<close>: removes a directory with everything below it.\<close>

definition rmtree :: "path \<Rightarrow> string \<Rightarrow> node \<Rightarrow> error + node" where
  "rmtree d x fs =
     (case lookup (d @ [x]) fs of
        Some (Dir es) \<Rightarrow>
          (case modify_dir d (AList.delete x) fs of
             None \<Rightarrow> Inl (OSError (d @ [x]))
           | Some fs' \<Rightarrow> Inr fs')
      | _ \<Rightarrow> Inl (OSError (d @ [x])))"

text \<open>\<open>open(p).read()\<close>.\<close>

definition read_file :: "path \<Rightarrow> node \<Rightarrow> error + string" where
  "read_file p fs = (case lookup p fs of Some (File c) \<Rightarrow> Inr c | _ \<Rightarrow> Inl (IOError p))"

text \<open>
  \<open>open(p, 'w').write(c)\<close>: creates the file or replaces its contents; fails on a
  directory and where the parent is no directory.
\<close>

definition write_file :: "path \<Rightarrow> string \<Rightarrow> string \<Rightarrow> node \<Rightarrow> error + node" where
  "write_file d x c fs =
     (case lookup (d @ [x]) fs of
        Some (Dir es) \<Rightarrow> Inl (IOError (d @ [x]))
      | _ \<Rightarrow>
          (case modify_dir d (AList.update x (File c)) fs of
             None \<Rightarrow> Inl (IOError (d @ [x]))
           | Some fs' \<Rightarrow> Inr fs'))"

text \<open>\<open>shutil.copyfile\<close> between two different paths: read all, write all.\<close>

definition copyfile :: "path \<Rightarrow> path \<Rightarrow> string \<Rightarrow> node \<Rightarrow> error + node" where
  "copyfile src d x fs =
     (case read_file src fs of Inl e \<Rightarrow> Inl e | Inr c \<Rightarrow> write_file d x c fs)"

text \<open>
  \<open>glob(os.path.join(d, '*'))\<close>, the names only (the program takes the
  \<open>basename\<close> of each result): the entries of the directory \<open>d\<close> whose name does not
  begin with a dot; nothing when \<open>d\<close> is no directory.
\<close>

definition glob_star :: "path \<Rightarrow> node \<Rightarrow> string list" where
  "glob_star d fs =
     (case lookup d fs of
        Some (Dir es) \<Rightarrow> filter (\<lambda>x. \<not> prefix ''.'' x) (map fst es)
      | _ \<Rightarrow> [])"

section \<open>The metadata rewriter\<close>

definition quoted :: "string \<Rightarrow> string" where
  "quoted s = CHR 0x27 # s @ [CHR 0x27]"

definition refactor_setup_text :: "string \<Rightarrow> string" where
  "refactor_setup_text c =
     str_replace (''packages=['' @ quoted ''analytics'' @ '', '' @ quoted ''analytics.test'' @ '']'')
                 (''packages=['' @ quoted ''segmentio'' @ '', '' @ quoted ''segmentio.test'' @ '']'')
       (str_replace (''test_suite='' @ quoted ''analytics.test.all'')
                    (''test_suite='' @ quoted ''segmentio.test.all'')
          (str_replace (''name='' @ quoted ''analytics-python'')
                       (''name='' @ quoted ''segmentio'') c))"

definition refactor_setup_with_segmentio_branding :: "node \<Rightarrow> error + node" where
  "refactor_setup_with_segmentio_branding fs =
     (case read_file [''setup.py''] fs of
        Inl e \<Rightarrow> Inl e
      | Inr c \<Rightarrow> write_file [] ''setup.py'' (refactor_setup_text c) fs)"

section \<open>The namespace rewriter\<close>

definition rewrite_imports :: "string \<Rightarrow> string" where
  "rewrite_imports c =
     str_replace ''from analytics.'' ''from segmentio.''
       (str_replace ''import analytics'' ''import segmentio'' c)"

text \<open>\<open>os.path.join\<close> of components that hold no slash.\<close>

fun join_path :: "path \<Rightarrow> string" where
  "join_path [] = []"
| "join_path [x] = x"
| "join_path (x # y # p) = x @ ''/'' @ join_path (y # p)"

text \<open>
  One round of the loop over \<open>filelist\<close>, for the entry \<open>filename\<close> of the
  directory \<open>analytics/rel\<close>; \<open>rec\<close> is the recursive call. The result is the
  exception raised, if any, and the working directory as the round leaves it; \<open>None\<close>
  is a recursion that has not returned. The relative path is kept without the empty
  first component that the program starts from, which \<open>os.path.join\<close> absorbs. The call
  of \<open>diff\<close> only chooses the text of a log line and is left out.
\<close>

definition branded_entry ::
  "(path \<Rightarrow> node \<Rightarrow> ((error + unit) \<times> node) option) \<Rightarrow> path \<Rightarrow> string \<Rightarrow> node
     \<Rightarrow> ((error + unit) \<times> node) option" where
  "branded_entry rec rel filename fs =
     (if isdir (''analytics'' # rel @ [filename]) fs then
        (case mkdir (''segmentio'' # rel) filename fs of
           Inl e \<Rightarrow> Some (Inl e, fs)
         | Inr fs' \<Rightarrow> rec (rel @ [filename]) fs')
      else if endswith (join_path (''analytics'' # rel @ [filename])) ''.py'' then
        (case read_file (''analytics'' # rel @ [filename]) fs of
           Inl e \<Rightarrow> Some (Inl e, fs)
         | Inr c \<Rightarrow>
             (case write_file (''segmentio'' # rel) filename (rewrite_imports c) fs of
                Inl e \<Rightarrow> Some (Inl e, fs)
              | Inr fs' \<Rightarrow> Some (Inr (), fs')))
      else
        (case copyfile (''analytics'' # rel @ [filename]) (''segmentio'' # rel) filename fs of
           Inl e \<Rightarrow> Some (Inl e, fs)
         | Inr fs' \<Rightarrow> Some (Inr (), fs')))"

fun branded_loop ::
  "(path \<Rightarrow> node \<Rightarrow> ((error + unit) \<times> node) option) \<Rightarrow> path \<Rightarrow> string list \<Rightarrow> node
     \<Rightarrow> ((error + unit) \<times> node) option" where
  "branded_loop rec rel [] fs = Some (Inr (), fs)"
| "branded_loop rec rel (filename # filelist) fs =
     (case branded_entry rec rel filename fs of
        None \<Rightarrow> None
      | Some (Inl e, fs') \<Rightarrow> Some (Inl e, fs')
      | Some (Inr u, fs') \<Rightarrow> branded_loop rec rel filelist fs')"

text \<open>
  The first argument bounds the depth of the recursion; the directory is listed anew
  from the working directory at every call, as the program does.
\<close>

primrec create_segmentio_branded_package ::
  "nat \<Rightarrow> path \<Rightarrow> node \<Rightarrow> ((error + unit) \<times> node) option" where
  "create_segmentio_branded_package 0 = (\<lambda>rel fs. None)"
| "create_segmentio_branded_package (Suc k) =
     (\<lambda>rel fs. branded_loop (create_segmentio_branded_package k) rel
                  (glob_star (''analytics'' # rel) fs) fs)"

text \<open>
  What the rewriter is to produce, as a function of the source tree alone: the image of
  a listed entry, and of the entry list of a directory.
\<close>

fun mirror :: "string \<Rightarrow> node \<Rightarrow> node"
  and mirror_entries :: "(string \<times> node) list \<Rightarrow> (string \<times> node) list" where
  "mirror x (File c) = File (if endswith x ''.py'' then rewrite_imports c else c)"
| "mirror x (Dir es) = Dir (mirror_entries es)"
| "mirror_entries [] = []"
| "mirror_entries ((x, n) # es) =
     (if prefix ''.'' x then mirror_entries es else (x, mirror x n) # mirror_entries es)"

fun height :: "node \<Rightarrow> nat"
  and height_entries :: "(string \<times> node) list \<Rightarrow> nat" where
  "height (File c) = 0"
| "height (Dir es) = Suc (height_entries es)"
| "height_entries [] = 0"
| "height_entries ((x, n) # es) = max (height n) (height_entries es)"

text \<open>
  A directory tree as a file system holds it: in every directory the names are
  distinct, not empty and free of slashes. The name of a directory is also free of the
  characters \<open>*\<close>, \<open>?\<close> and \<open>[\<close>: the program puts the name into the pattern
  of the recursive call, where \<open>glob\<close> would read such a name as a pattern and not as
  the directory; \<open>glob_star\<close> lists the directory it is given.
\<close>

fun wf_node :: "node \<Rightarrow> bool"
  and wf_entries :: "(string \<times> node) list \<Rightarrow> bool" where
  "wf_node (File c) = True"
| "wf_node (Dir es) = (distinct (map fst es) \<and> wf_entries es)"
| "wf_entries [] = True"
| "wf_entries ((x, n) # es) =
     (x \<noteq> [] \<and> CHR ''/'' \<notin> set x
      \<and> (case n of File c \<Rightarrow> True | Dir ks \<Rightarrow> set x \<inter> set ''*?['' = {})
      \<and> wf_node n \<and> wf_entries es)"

section \<open>External commands\<close>

text \<open>
  The program runs \<open>git\<close> as an external process. What a command answers and what it
  does to the working directory and to the repository is not the program's: \<open>git\<close>
  is a parameter, a function from the argument vector and the world (working directory,
  repository) to the exit status, the text on standard output and the new world. The
  state of a run also records every command that was issued, in order.
\<close>

record 'r state =
  tree :: node
  repo :: 'r
  log :: "string list list"

type_synonym 'r git = "string list \<Rightarrow> node \<times> 'r \<Rightarrow> (int \<times> string) \<times> (node \<times> 'r)"

definition run :: "'r git \<Rightarrow> string list \<Rightarrow> 'r state \<Rightarrow> (int \<times> string) \<times> 'r state" where
  "run git cmd s =
     (case git cmd (tree s, repo s) of
        (res, (t, r)) \<Rightarrow> (res, \<lparr>tree = t, repo = r, log = log s @ [cmd]\<rparr>))"

text \<open>\<open>subprocess.call\<close>, \<open>check_call\<close> and \<open>check_output\<close>.\<close>

definition call :: "'r git \<Rightarrow> string list \<Rightarrow> 'r state \<Rightarrow> int \<times> 'r state" where
  "call git cmd s = (case run git cmd s of ((rc, out), s') \<Rightarrow> (rc, s'))"

definition check_call :: "'r git \<Rightarrow> string list \<Rightarrow> 'r state \<Rightarrow> (error + unit) \<times> 'r state" where
  "check_call git cmd s =
     (case run git cmd s of
        ((rc, out), s') \<Rightarrow> (if rc = 0 then Inr () else Inl (CalledProcessError rc cmd), s'))"

definition check_output :: "'r git \<Rightarrow> string list \<Rightarrow> 'r state \<Rightarrow> (error + string) \<times> 'r state" where
  "check_output git cmd s =
     (case run git cmd s of
        ((rc, out), s') \<Rightarrow> (if rc = 0 then Inr out else Inl (CalledProcessError rc cmd), s'))"

text \<open>A file operation of the program, on the working directory of the state.\<close>

definition on_tree :: "(node \<Rightarrow> error + node) \<Rightarrow> 'r state \<Rightarrow> (error + unit) \<times> 'r state" where
  "on_tree f s = (case f (tree s) of Inl e \<Rightarrow> (Inl e, s) | Inr t \<Rightarrow> (Inr (), s\<lparr>tree := t\<rparr>))"

section \<open>The remote resolver and the sync step\<close>

text \<open>
  \<open>re.search\<close> of the remote pattern: at the leftmost position where it matches, the
  longest run of letters and underscores, then a tab, the address and \<open>(fetch)\<close>. (A
  shorter run is followed by a letter or underscore, never by the tab, so that
  backtracking finds nothing more.)
\<close>

definition is_name_char :: "char \<Rightarrow> bool" where
  "is_name_char c =
     (let n = (of_char c :: nat)
      in (97 \<le> n \<and> n \<le> 122) \<or> (65 \<le> n \<and> n \<le> 90) \<or> n = 95)"

definition upstream_url :: string where
  "upstream_url = ''git@github.com:segmentio/analytics-python''"

definition match_remote_at :: "string \<Rightarrow> (string \<times> string) option" where
  "match_remote_at s =
     (if prefix (CHR 0x09 # upstream_url @ '' (fetch)'') (dropWhile is_name_char s)
      then Some (takeWhile is_name_char s, upstream_url) else None)"

fun re_search_remote :: "string \<Rightarrow> (string \<times> string) option" where
  "re_search_remote [] = match_remote_at []"
| "re_search_remote (c # cs) =
     (case match_remote_at (c # cs) of
        Some m \<Rightarrow> Some m
      | None \<Rightarrow> re_search_remote cs)"

definition get_segmentio_analytics_python_remote ::
  "'r git \<Rightarrow> 'r state \<Rightarrow> (error + string \<times> string) \<times> 'r state" where
  "get_segmentio_analytics_python_remote git s =
     (case check_output git [''git'', ''remote'', ''-v''] s of
        (Inl e, s') \<Rightarrow> (Inl e, s')
      | (Inr remotes, s') \<Rightarrow>
          (case re_search_remote remotes of
             None \<Rightarrow> (Inl (ValueError ''could not find segment remote''), s')
           | Some m \<Rightarrow> (Inr m, s')))"

definition fetch_master_from_segmentio_analytics_python ::
  "'r git \<Rightarrow> 'r state \<Rightarrow> (error + unit) \<times> 'r state" where
  "fetch_master_from_segmentio_analytics_python git s =
     (case get_segmentio_analytics_python_remote git s of
        (Inl e, s1) \<Rightarrow> (Inl e, s1)
      | (Inr (name, url), s1) \<Rightarrow>
          (case check_call git [''git'', ''fetch'', name, ''master''] s1 of
             (Inl e, s2) \<Rightarrow> (Inl e, s2)
           | (Inr u, s2) \<Rightarrow> check_call git [''git'', ''fetch'', ''--tags'', name] s2))"

section \<open>The branch guard\<close>

definition fixed_branch :: string where
  "fixed_branch = ''segmentio-release''"

definition branch_missing_message :: "string \<Rightarrow> string" where
  "branch_missing_message tag =
     [CHR 0x0A, CHR 0x0A] @ ''why don'' @ [CHR 0x27] @ ''t you have branch '' @ fixed_branch @ ''?!''
     @ [CHR 0x0A] @ '' run `git checkout -b '' @ fixed_branch @ '' tags/'' @ tag @ ''` to create''
     @ [CHR 0x0A] @ '' then make sure you have this file committed''"

definition checkout_segmentio_branded_branch ::
  "'r git \<Rightarrow> 'r state \<Rightarrow> (error + unit) \<times> 'r state" where
  "checkout_segmentio_branded_branch git s =
     (case check_output git [''git'', ''rev-parse'', ''--abbrev-ref'', ''HEAD''] s of
        (Inl e, s1) \<Rightarrow> (Inl e, s1)
      | (Inr current_branch, s1) \<Rightarrow>
          if fixed_branch \<noteq> current_branch then
            (case call git [''git'', ''rev-parse'', ''--verify'', fixed_branch] s1 of
               (exists, s2) \<Rightarrow>
                 if exists \<noteq> 0 then
                   (case check_output git [''git'', ''describe'', ''master''] s2 of
                      (Inl e, s3) \<Rightarrow> (Inl e, s3)
                    | (Inr out, s3) \<Rightarrow>
                        (Inl (StandardError (branch_missing_message (rstrip out))), s3))
                 else check_call git [''git'', ''checkout'', fixed_branch] s2)
          else (Inr (), s1))"

section \<open>The tag comparator and the merge step\<close>

definition get_most_recent_tag ::
  "'r git \<Rightarrow> 'r state \<Rightarrow> (error + string \<times> string) \<times> 'r state" where
  "get_most_recent_tag git s =
     (case check_output git [''git'', ''describe'', ''master''] s of
        (Inl e, s1) \<Rightarrow> (Inl e, s1)
      | (Inr out1, s1) \<Rightarrow>
          (case check_output git [''git'', ''describe'', ''--abbrev=0'', ''--tags''] s1 of
             (Inl e, s2) \<Rightarrow> (Inl e, s2)
           | (Inr out2, s2) \<Rightarrow> (Inr (rstrip out2, rstrip out1), s2)))"

definition merge_tagged_version :: "'r git \<Rightarrow> string \<Rightarrow> 'r state \<Rightarrow> (error + unit) \<times> 'r state" where
  "merge_tagged_version git tag s =
     (case check_call git
             [''git'', ''merge'', ''--no-commit'', ''-X'', ''theirs'', ''tags/'' @ tag] s of
        (Inl e, s1) \<Rightarrow> (Inl e, s1)
      | (Inr u, s1) \<Rightarrow> check_call git [''git'', ''commit'', ''-am'', ''merged Release '' @ tag] s1)"

section \<open>The orchestrator\<close>

text \<open>
  The rebuild of the target tree: the first statements of the \<open>try\<close> block up to the
  call of the namespace rewriter, on the working directory alone.
\<close>

definition regenerate :: "nat \<Rightarrow> node \<Rightarrow> ((error + unit) \<times> node) option" where
  "regenerate fuel fs =
     (case (if isdir [''segmentio''] fs then rmtree [] ''segmentio'' fs else Inr fs) of
        Inl e \<Rightarrow> Some (Inl e, fs)
      | Inr fs1 \<Rightarrow>
          (case mkdir [] ''segmentio'' fs1 of
             Inl e \<Rightarrow> Some (Inl e, fs1)
           | Inr fs2 \<Rightarrow> create_segmentio_branded_package fuel [] fs2))"

text \<open>The body of the \<open>try\<close> block.\<close>

definition rebuild_and_commit ::
  "nat \<Rightarrow> 'r git \<Rightarrow> 'r state \<Rightarrow> ((error + unit) \<times> 'r state) option" where
  "rebuild_and_commit fuel git s =
     (case regenerate fuel (tree s) of
        None \<Rightarrow> None
      | Some (Inl e, t) \<Rightarrow> Some (Inl e, s\<lparr>tree := t\<rparr>)
      | Some (Inr u, t) \<Rightarrow>
          (case on_tree refactor_setup_with_segmentio_branding (s\<lparr>tree := t\<rparr>) of
             (Inl e, s1) \<Rightarrow> Some (Inl e, s1)
           | (Inr u1, s1) \<Rightarrow>
               (case check_call git [''git'', ''add'', ''segmentio''] s1 of
                  (Inl e, s2) \<Rightarrow> Some (Inl e, s2)
                | (Inr u2, s2) \<Rightarrow>
                    Some (check_call git
                            [''git'', ''commit'', ''-am'', ''created segmentio release''] s2))))"

text \<open>
  The statements in front of the \<open>try\<close> block: they end the run (an exception, or
  \<open>sys.exit(0)\<close>) or reach the block with the starting commit.
\<close>

datatype outcome = Returned | Raised error | Exited int

definition prepare :: "'r git \<Rightarrow> bool \<Rightarrow> 'r state \<Rightarrow> (outcome + string) \<times> 'r state" where
  "prepare git skip_release_merge s =
     (case check_output git [''git'', ''rev-parse'', ''--verify'', ''HEAD''] s of
        (Inl e, s1) \<Rightarrow> (Inl (Raised e), s1)
      | (Inr out, s1) \<Rightarrow>
          (case fetch_master_from_segmentio_analytics_python git s1 of
             (Inl e, s2) \<Rightarrow> (Inl (Raised e), s2)
           | (Inr u, s2) \<Rightarrow>
               (case checkout_segmentio_branded_branch git s2 of
                  (Inl e, s3) \<Rightarrow> (Inl (Raised e), s3)
                | (Inr u, s3) \<Rightarrow>
                    (case get_most_recent_tag git s3 of
                       (Inl e, s4) \<Rightarrow> (Inl (Raised e), s4)
                     | (Inr (current_tag, most_recent_tag), s4) \<Rightarrow>
                         if \<not> skip_release_merge then
                           if current_tag = most_recent_tag then (Inl (Exited 0), s4)
                           else
                             (case merge_tagged_version git most_recent_tag s4 of
                                (Inl e, s5) \<Rightarrow> (Inl (Raised e), s5)
                              | (Inr u, s5) \<Rightarrow> (Inr (rstrip out), s5))
                         else (Inr (rstrip out), s4)))))"

definition main :: "nat \<Rightarrow> 'r git \<Rightarrow> bool \<Rightarrow> 'r state \<Rightarrow> (outcome \<times> 'r state) option" where
  "main fuel git skip_release_merge s =
     (case prepare git skip_release_merge s of
        (Inl out, s1) \<Rightarrow> Some (out, s1)
      | (Inr starting_commit, s1) \<Rightarrow>
          (case rebuild_and_commit fuel git s1 of
             None \<Rightarrow> None
           | Some (Inr u, s2) \<Rightarrow> Some (Returned, s2)
           | Some (Inl e, s2) \<Rightarrow>
               (case check_call git [''git'', ''reset'', ''--hard'', starting_commit] s2 of
                  (Inl e', s3) \<Rightarrow> Some (Raised e', s3)
                | (Inr u, s3) \<Rightarrow> Some (Raised e, s3))))"

text \<open>The commands that merge or commit.\<close>

definition merge_or_commit :: "string list \<Rightarrow> bool" where
  "merge_or_commit cmd =
     (take 2 cmd = [''git'', ''merge''] \<or> take 2 cmd = [''git'', ''commit''])"

section \<open>Auxiliary notions for the statements\<close>

text \<open>\<open>graft p n fs\<close> is \<open>fs\<close> with the node at the path \<open>p\<close> replaced by \<open>n\<close>.\<close>

fun graft :: "path \<Rightarrow> node \<Rightarrow> node \<Rightarrow> node" where
  "graft [] n fs = n"
| "graft (x # p) n fs =
     (case fs of
        File c \<Rightarrow> File c
      | Dir es \<Rightarrow>
          (case map_of es x of
             None \<Rightarrow> Dir es
           | Some m \<Rightarrow> Dir (AList.update x (graft p n m) es)))"

text \<open>The entries of the source package, empty when it is no directory.\<close>

definition analytics_entries :: "node \<Rightarrow> (string \<times> node) list" where
  "analytics_entries fs = (case lookup [''analytics''] fs of Some (Dir es) \<Rightarrow> es | _ \<Rightarrow> [])"

text \<open>
  The working directory with the target package rebuilt: whatever was called
  \<open>segmentio\<close> is gone, and a directory of that name holds the image of the entries
  of the source package.
\<close>

definition rebuilt :: "node \<Rightarrow> node" where
  "rebuilt fs =
     (case fs of
        File c \<Rightarrow> File c
      | Dir es \<Rightarrow>
          Dir (AList.delete ''segmentio'' es
               @ [(''segmentio'', Dir (mirror_entries (analytics_entries fs)))]))"

text \<open>
  A working directory for the instances: a source package with a module, a hidden
  directory and a sub-package, and a target package left by an earlier run.
\<close>

definition example_tree :: node where
  "example_tree =
     Dir [(''analytics'',
             Dir [(''client.py'', File ''import analytics''),
                  (''.cache'', Dir [(''old.py'', File ''import analytics'')]),
                  (''test'', Dir [(''data.txt'', File ''from analytics.'')])]),
          (''segmentio'', Dir [(''stale.py'', File ''pass'')]),
          (''setup.py'', File ''setup()'')]"

text \<open>
  A stand-in for \<open>git\<close> that answers from a table (exit status 0 and no output for a
  command that is not listed), leaves the working directory alone and counts in the
  repository how many fetches were made.
\<close>

definition scripted_git :: "(string list \<times> int \<times> string) list \<Rightarrow> nat git" where
  "scripted_git tab cmd w =
     ((case map_of tab cmd of Some r \<Rightarrow> r | None \<Rightarrow> (0, [])),
      (fst w, if take 2 cmd = [''git'', ''fetch''] then Suc (snd w) else snd w))"

definition remote_line :: string where
  "remote_line = ''origin'' @ [CHR 0x09] @ upstream_url @ '' (fetch)'' @ [CHR 0x0A]"

text \<open>
  The answers of a repository that sits on the release branch, one release behind its
  upstream; every text ends with the newline that \<open>git\<close> prints.
\<close>

definition base_answers :: "(string list \<times> int \<times> string) list" where
  "base_answers =
     [([''git'', ''rev-parse'', ''--verify'', ''HEAD''], (0, ''4f2a9c1'' @ [CHR 0x0A])),
      ([''git'', ''remote'', ''-v''], (0, remote_line)),
      ([''git'', ''rev-parse'', ''--abbrev-ref'', ''HEAD''],
         (0, ''segmentio-release'' @ [CHR 0x0A])),
      ([''git'', ''describe'', ''master''], (0, ''1.0.1'' @ [CHR 0x0A])),
      ([''git'', ''describe'', ''--abbrev=0'', ''--tags''], (0, ''1.0.0'' @ [CHR 0x0A]))]"

definition start :: "node \<Rightarrow> nat state" where
  "start fs = \<lparr>tree = fs, repo = 0, log = []\<rparr>"

section \<open>Strings and files: basic facts\<close>

lemma contains_Nil [simp]: "contains [] s"
  by (cases s) simp_all

lemma replace_scan_absent: "\<not> contains old s \<Longrightarrow> replace_scan old new s = s"
  by (induction s) auto

lemma str_replace_absent: "\<not> contains old s \<Longrightarrow> str_replace old new s = s"
  by (cases "old = []") (simp_all add: str_replace_def replace_scan_absent)

lemma update_same: "map_of es k = Some v \<Longrightarrow> AList.update k v es = es"
  by (induction es) (auto split: if_splits)

lemma lookup_single: "lookup [x] fs = Some n \<Longrightarrow> \<exists>es. fs = Dir es \<and> map_of es x = Some n"
  by (cases fs) (auto split: option.splits)

section \<open>Commands issued by the steps\<close>

lemma log_run: "run git cmd s = (res, s') \<Longrightarrow> log s' = log s @ [cmd]"
  by (auto simp: run_def split: prod.splits)

lemma log_call: "call git cmd s = (rc, s') \<Longrightarrow> log s' = log s @ [cmd]"
  by (auto simp: call_def dest: log_run split: prod.splits)

lemma log_check_call: "check_call git cmd s = (r, s') \<Longrightarrow> log s' = log s @ [cmd]"
  by (auto simp: check_call_def dest: log_run split: prod.splits)

lemma log_check_output: "check_output git cmd s = (r, s') \<Longrightarrow> log s' = log s @ [cmd]"
  by (auto simp: check_output_def dest: log_run split: prod.splits)

lemma re_search_remote_line: "re_search_remote remote_line = Some (''origin'', upstream_url)"
  by (simp add: remote_line_def match_remote_at_def is_name_char_def upstream_url_def)

lemmas script_simps =
  prepare_def fetch_master_from_segmentio_analytics_python_def
  get_segmentio_analytics_python_remote_def get_most_recent_tag_def
  checkout_segmentio_branded_branch_def merge_tagged_version_def
  check_output_def check_call_def call_def run_def scripted_git_def base_answers_def
  start_def fixed_branch_def re_search_remote_line rstrip_def is_space_def

section \<open>Failures and the rollback\<close>

text \<open>
  Claim C2. When the statements in front of the \<open>try\<close> block have reached it with
  the starting commit, and the block (removal and re-creation of the target tree,
  namespace rewrite, metadata rewrite, stage, commit) raises \<open>e\<close>, the next and last
  command issued is \<open>git reset --hard\<close> to that commit, which is the stripped answer
  of the first \<open>git rev-parse --verify HEAD\<close>; when this command exits with status 0,
  the run ends by raising the original \<open>e\<close>, in the world the reset has left.
\<close>

theorem rollback_on_failure:
  assumes "prepare git skip s = (Inr starting_commit, s1)"
    and "rebuild_and_commit fuel git s1 = Some (Inl e, s2)"
    and "run git [''git'', ''reset'', ''--hard'', starting_commit] s2 = ((0, out), s3)"
  shows "main fuel git skip s = Some (Raised e, s3)
       \<and> log s3 = log s2 @ [[''git'', ''reset'', ''--hard'', starting_commit]]
       \<and> (\<exists>out0 s0. check_output git [''git'', ''rev-parse'', ''--verify'', ''HEAD''] s
                         = (Inr out0, s0) \<and> starting_commit = rstrip out0)"
proof -
  have "main fuel git skip s = Some (Raised e, s3)"
    using assms by (simp add: main_def check_call_def)
  moreover have "log s3 = log s2 @ [[''git'', ''reset'', ''--hard'', starting_commit]]"
    using assms(3) by (rule log_run)
  moreover have "\<exists>out0 s0. check_output git [''git'', ''rev-parse'', ''--verify'', ''HEAD''] s
                         = (Inr out0, s0) \<and> starting_commit = rstrip out0"
    using assms(1) by (auto simp: prepare_def split: prod.splits sum.splits if_splits)
  ultimately show ?thesis by blast
qed

text \<open>
  An instance: \<open>segmentio\<close> is a regular file, so that \<open>os.mkdir\<close> fails.
\<close>

theorem rollback_on_failure_witness:
  "main 0 (scripted_git base_answers) True (start (Dir [(''segmentio'', File [])]))
   = Some (Raised (OSError [''segmentio'']),
       \<lparr>tree = Dir [(''segmentio'', File [])], repo = 2,
        log = [[''git'', ''rev-parse'', ''--verify'', ''HEAD''],
               [''git'', ''remote'', ''-v''],
               [''git'', ''fetch'', ''origin'', ''master''],
               [''git'', ''fetch'', ''--tags'', ''origin''],
               [''git'', ''rev-parse'', ''--abbrev-ref'', ''HEAD''],
               [''git'', ''rev-parse'', ''--verify'', ''segmentio-release''],
               [''git'', ''checkout'', ''segmentio-release''],
               [''git'', ''describe'', ''master''],
               [''git'', ''describe'', ''--abbrev=0'', ''--tags''],
               [''git'', ''reset'', ''--hard'', ''4f2a9c1'']]\<rparr>)"
proof -
  let ?g = "scripted_git base_answers"
  let ?l = "[[''git'', ''rev-parse'', ''--verify'', ''HEAD''],
               [''git'', ''remote'', ''-v''],
               [''git'', ''fetch'', ''origin'', ''master''],
               [''git'', ''fetch'', ''--tags'', ''origin''],
               [''git'', ''rev-parse'', ''--abbrev-ref'', ''HEAD''],
               [''git'', ''rev-parse'', ''--verify'', ''segmentio-release''],
               [''git'', ''checkout'', ''segmentio-release''],
               [''git'', ''describe'', ''master''],
               [''git'', ''describe'', ''--abbrev=0'', ''--tags'']]"
  let ?s1 = "\<lparr>tree = Dir [(''segmentio'', File [])], repo = 2::nat, log = ?l\<rparr>"
  have p: "prepare ?g True (start (Dir [(''segmentio'', File [])])) = (Inr ''4f2a9c1'', ?s1)"
    by (simp add: script_simps)
  have r: "rebuild_and_commit 0 ?g ?s1 = Some (Inl (OSError [''segmentio'']), ?s1)"
    by (simp add: rebuild_and_commit_def regenerate_def isdir_def mkdir_def)
  have q: "run ?g [''git'', ''reset'', ''--hard'', ''4f2a9c1''] ?s1
     = ((0, []), \<lparr>tree = Dir [(''segmentio'', File [])], repo = 2,
          log = ?l @ [[''git'', ''reset'', ''--hard'', ''4f2a9c1'']]\<rparr>)"
    by (simp add: script_simps)
  show ?thesis
    using rollback_on_failure [OF p r q] by simp
qed

lemma quiet_remote:
  "get_segmentio_analytics_python_remote git s = (r, s')
   \<Longrightarrow> filter merge_or_commit (log s') = filter merge_or_commit (log s)"
  by (auto simp: get_segmentio_analytics_python_remote_def merge_or_commit_def
      dest!: log_check_output split: prod.splits sum.splits option.splits)

lemma quiet_fetch:
  "fetch_master_from_segmentio_analytics_python git s = (r, s')
   \<Longrightarrow> filter merge_or_commit (log s') = filter merge_or_commit (log s)"
  by (auto simp: fetch_master_from_segmentio_analytics_python_def merge_or_commit_def
      dest!: log_check_output log_check_call quiet_remote split: prod.splits sum.splits option.splits)

lemma quiet_checkout:
  "checkout_segmentio_branded_branch git s = (r, s')
   \<Longrightarrow> filter merge_or_commit (log s') = filter merge_or_commit (log s)"
  by (auto simp: checkout_segmentio_branded_branch_def merge_or_commit_def
      dest!: log_check_output log_check_call log_call split: prod.splits sum.splits option.splits if_splits)

lemma quiet_tags:
  "get_most_recent_tag git s = (r, s')
   \<Longrightarrow> filter merge_or_commit (log s') = filter merge_or_commit (log s)"
  by (auto simp: get_most_recent_tag_def merge_or_commit_def
      dest!: log_check_output split: prod.splits sum.splits option.splits if_splits)

section \<open>The up-to-date exit\<close>

text \<open>
  Claim C5. Without the merge-skip flag, a run whose tag comparator returns the same
  string for the current local tag and the most recent upstream tag ends with
  \<open>sys.exit(0)\<close>; between the start and the exit no merge and no commit command is
  issued.
\<close>

theorem up_to_date_exits_zero:
  assumes "check_output git [''git'', ''rev-parse'', ''--verify'', ''HEAD''] s = (Inr out, s1)"
    and "fetch_master_from_segmentio_analytics_python git s1 = (Inr (), s2)"
    and "checkout_segmentio_branded_branch git s2 = (Inr (), s3)"
    and "get_most_recent_tag git s3 = (Inr (tag, tag), s4)"
  shows "main fuel git False s = Some (Exited 0, s4)
       \<and> filter merge_or_commit (log s4) = filter merge_or_commit (log s)"
proof -
  have "main fuel git False s = Some (Exited 0, s4)"
    using assms by (simp add: main_def prepare_def)
  moreover have "filter merge_or_commit (log s1) = filter merge_or_commit (log s)"
    using log_check_output [OF assms(1)] by (simp add: merge_or_commit_def)
  ultimately show ?thesis
    using quiet_fetch [OF assms(2)] quiet_checkout [OF assms(3)] quiet_tags [OF assms(4)]
    by simp
qed

theorem up_to_date_exits_zero_witness:
  "main 0 (scripted_git (([''git'', ''describe'', ''--abbrev=0'', ''--tags''],
                           (0, ''1.0.1'' @ [CHR 0x0A])) # base_answers))
          False (start (Dir []))
   = Some (Exited 0,
       \<lparr>tree = Dir [], repo = 2,
        log = [[''git'', ''rev-parse'', ''--verify'', ''HEAD''],
               [''git'', ''remote'', ''-v''],
               [''git'', ''fetch'', ''origin'', ''master''],
               [''git'', ''fetch'', ''--tags'', ''origin''],
               [''git'', ''rev-parse'', ''--abbrev-ref'', ''HEAD''],
               [''git'', ''rev-parse'', ''--verify'', ''segmentio-release''],
               [''git'', ''checkout'', ''segmentio-release''],
               [''git'', ''describe'', ''master''],
               [''git'', ''describe'', ''--abbrev=0'', ''--tags'']]\<rparr>)"
proof -
  let ?g = "scripted_git (([''git'', ''describe'', ''--abbrev=0'', ''--tags''],
                           (0, ''1.0.1'' @ [CHR 0x0A])) # base_answers)"
  let ?c0 = "[''git'', ''rev-parse'', ''--verify'', ''HEAD'']"
  let ?l2 = "[?c0, [''git'', ''remote'', ''-v''],
               [''git'', ''fetch'', ''origin'', ''master''],
               [''git'', ''fetch'', ''--tags'', ''origin'']]"
  let ?l3 = "?l2 @ [[''git'', ''rev-parse'', ''--abbrev-ref'', ''HEAD''],
               [''git'', ''rev-parse'', ''--verify'', ''segmentio-release''],
               [''git'', ''checkout'', ''segmentio-release'']]"
  let ?l4 = "?l3 @ [[''git'', ''describe'', ''master''],
               [''git'', ''describe'', ''--abbrev=0'', ''--tags'']]"
  have a: "check_output ?g ?c0 (start (Dir []))
             = (Inr (''4f2a9c1'' @ [CHR 0x0A]), \<lparr>tree = Dir [], repo = 0, log = [?c0]\<rparr>)"
    by (simp add: script_simps)
  have b: "fetch_master_from_segmentio_analytics_python ?g \<lparr>tree = Dir [], repo = 0, log = [?c0]\<rparr>
             = (Inr (), \<lparr>tree = Dir [], repo = 2, log = ?l2\<rparr>)"
    by (simp add: script_simps)
  have c: "checkout_segmentio_branded_branch ?g \<lparr>tree = Dir [], repo = 2, log = ?l2\<rparr>
             = (Inr (), \<lparr>tree = Dir [], repo = 2, log = ?l3\<rparr>)"
    by (simp add: script_simps)
  have d: "get_most_recent_tag ?g \<lparr>tree = Dir [], repo = 2, log = ?l3\<rparr>
             = (Inr (''1.0.1'', ''1.0.1''), \<lparr>tree = Dir [], repo = 2, log = ?l4\<rparr>)"
    by (simp add: script_simps)
  show ?thesis
    using up_to_date_exits_zero [OF a b c d, of 0] by simp
qed

section \<open>The branch guard\<close>

text \<open>
  Claim C9 asks that the guard does nothing more when the run is already on the release
  branch. \<open>git rev-parse --abbrev-ref HEAD\<close> prints the branch name with a newline,
  and the guard compares that text, unstripped, with \<open>segmentio-release\<close>: the two
  differ, and the guard goes on to the existence check and the checkout.
\<close>

theorem guard_on_release_branch_checks_and_switches:
  "checkout_segmentio_branded_branch (scripted_git base_answers) (start (Dir []))
   = (Inr (), \<lparr>tree = Dir [], repo = 0,
        log = [[''git'', ''rev-parse'', ''--abbrev-ref'', ''HEAD''],
               [''git'', ''rev-parse'', ''--verify'', ''segmentio-release''],
               [''git'', ''checkout'', ''segmentio-release'']]\<rparr>)"
  by (simp add: script_simps)

section \<open>A failing merge\<close>

text \<open>
  Claim C3 asks for a rollback when the merge step fails. The merge runs in front of the
  \<open>try\<close> block: here \<open>git merge\<close> exits with status 1, the run ends with that
  failure, and the merge is the last command issued; there is no reset.
\<close>

theorem merge_failure_no_rollback_counterexample:
  "main 0 (scripted_git (([''git'', ''merge'', ''--no-commit'', ''-X'', ''theirs'', ''tags/1.0.1''],
                           (1, [])) # base_answers))
          False (start (Dir []))
   = Some (Raised (CalledProcessError 1
                     [''git'', ''merge'', ''--no-commit'', ''-X'', ''theirs'', ''tags/1.0.1'']),
       \<lparr>tree = Dir [], repo = 2,
        log = [[''git'', ''rev-parse'', ''--verify'', ''HEAD''],
               [''git'', ''remote'', ''-v''],
               [''git'', ''fetch'', ''origin'', ''master''],
               [''git'', ''fetch'', ''--tags'', ''origin''],
               [''git'', ''rev-parse'', ''--abbrev-ref'', ''HEAD''],
               [''git'', ''rev-parse'', ''--verify'', ''segmentio-release''],
               [''git'', ''checkout'', ''segmentio-release''],
               [''git'', ''describe'', ''master''],
               [''git'', ''describe'', ''--abbrev=0'', ''--tags''],
               [''git'', ''merge'', ''--no-commit'', ''-X'', ''theirs'', ''tags/1.0.1'']]\<rparr>)"
  by (simp add: main_def script_simps)

text \<open>
  Claim C3, as the program has it: a failure of the merge step (of \<open>git merge\<close> or
  of the \<open>git commit\<close> behind it) ends the run with that failure in the state the
  failing command has left; the failing command is the last one issued, no reset follows.
\<close>

theorem merge_failure_propagates_unhandled:
  assumes "check_output git [''git'', ''rev-parse'', ''--verify'', ''HEAD''] s = (Inr out, s1)"
    and "fetch_master_from_segmentio_analytics_python git s1 = (Inr (), s2)"
    and "checkout_segmentio_branded_branch git s2 = (Inr (), s3)"
    and "get_most_recent_tag git s3 = (Inr (current_tag, most_recent_tag), s4)"
    and "current_tag \<noteq> most_recent_tag"
    and "merge_tagged_version git most_recent_tag s4 = (Inl e, s5)"
  shows "main fuel git False s = Some (Raised e, s5)
       \<and> (log s5 = log s4 @ [[''git'', ''merge'', ''--no-commit'', ''-X'', ''theirs'',
                                ''tags/'' @ most_recent_tag]]
          \<or> log s5 = log s4 @ [[''git'', ''merge'', ''--no-commit'', ''-X'', ''theirs'',
                                  ''tags/'' @ most_recent_tag],
                                 [''git'', ''commit'', ''-am'', ''merged Release '' @ most_recent_tag]])"
proof -
  have "main fuel git False s = Some (Raised e, s5)"
    using assms by (simp add: main_def prepare_def)
  moreover have "log s5 = log s4 @ [[''git'', ''merge'', ''--no-commit'', ''-X'', ''theirs'',
                                ''tags/'' @ most_recent_tag]]
          \<or> log s5 = log s4 @ [[''git'', ''merge'', ''--no-commit'', ''-X'', ''theirs'',
                                  ''tags/'' @ most_recent_tag],
                                 [''git'', ''commit'', ''-am'', ''merged Release '' @ most_recent_tag]]"
    using assms(6)
    by (auto simp: merge_tagged_version_def dest!: log_check_call split: prod.splits sum.splits)
  ultimately show ?thesis by blast
qed

theorem merge_failure_propagates_unhandled_witness:
  "main 0 (scripted_git (([''git'', ''commit'', ''-am'', ''merged Release 1.0.1''], (1, []))
                          # base_answers))
          False (start (Dir []))
   = Some (Raised (CalledProcessError 1 [''git'', ''commit'', ''-am'', ''merged Release 1.0.1'']),
       \<lparr>tree = Dir [], repo = 2,
        log = [[''git'', ''rev-parse'', ''--verify'', ''HEAD''],
               [''git'', ''remote'', ''-v''],
               [''git'', ''fetch'', ''origin'', ''master''],
               [''git'', ''fetch'', ''--tags'', ''origin''],
               [''git'', ''rev-parse'', ''--abbrev-ref'', ''HEAD''],
               [''git'', ''rev-parse'', ''--verify'', ''segmentio-release''],
               [''git'', ''checkout'', ''segmentio-release''],
               [''git'', ''describe'', ''master''],
               [''git'', ''describe'', ''--abbrev=0'', ''--tags''],
               [''git'', ''merge'', ''--no-commit'', ''-X'', ''theirs'', ''tags/1.0.1''],
               [''git'', ''commit'', ''-am'', ''merged Release 1.0.1'']]\<rparr>)"
proof -
  let ?g = "scripted_git (([''git'', ''commit'', ''-am'', ''merged Release 1.0.1''], (1, []))
                          # base_answers)"
  let ?c0 = "[''git'', ''rev-parse'', ''--verify'', ''HEAD'']"
  let ?l2 = "[?c0, [''git'', ''remote'', ''-v''],
               [''git'', ''fetch'', ''origin'', ''master''],
               [''git'', ''fetch'', ''--tags'', ''origin'']]"
  let ?l3 = "?l2 @ [[''git'', ''rev-parse'', ''--abbrev-ref'', ''HEAD''],
               [''git'', ''rev-parse'', ''--verify'', ''segmentio-release''],
               [''git'', ''checkout'', ''segmentio-release'']]"
  let ?l4 = "?l3 @ [[''git'', ''describe'', ''master''],
               [''git'', ''describe'', ''--abbrev=0'', ''--tags'']]"
  let ?l5 = "?l4 @ [[''git'', ''merge'', ''--no-commit'', ''-X'', ''theirs'', ''tags/1.0.1''],
               [''git'', ''commit'', ''-am'', ''merged Release 1.0.1'']]"
  have a: "check_output ?g ?c0 (start (Dir []))
             = (Inr (''4f2a9c1'' @ [CHR 0x0A]), \<lparr>tree = Dir [], repo = 0, log = [?c0]\<rparr>)"
    by (simp add: script_simps)
  have b: "fetch_master_from_segmentio_analytics_python ?g \<lparr>tree = Dir [], repo = 0, log = [?c0]\<rparr>
             = (Inr (), \<lparr>tree = Dir [], repo = 2, log = ?l2\<rparr>)"
    by (simp add: script_simps)
  have c: "checkout_segmentio_branded_branch ?g \<lparr>tree = Dir [], repo = 2, log = ?l2\<rparr>
             = (Inr (), \<lparr>tree = Dir [], repo = 2, log = ?l3\<rparr>)"
    by (simp add: script_simps)
  have d: "get_most_recent_tag ?g \<lparr>tree = Dir [], repo = 2, log = ?l3\<rparr>
             = (Inr (''1.0.0'', ''1.0.1''), \<lparr>tree = Dir [], repo = 2, log = ?l4\<rparr>)"
    by (simp add: script_simps)
  have e: "''1.0.0'' \<noteq> ''1.0.1''" by simp
  have f: "merge_tagged_version ?g ''1.0.1'' \<lparr>tree = Dir [], repo = 2, log = ?l4\<rparr>
             = (Inl (CalledProcessError 1 [''git'', ''commit'', ''-am'', ''merged Release 1.0.1'']),
                \<lparr>tree = Dir [], repo = 2, log = ?l5\<rparr>)"
    by (simp add: script_simps)
  show ?thesis
    using merge_failure_propagates_unhandled [OF a b c d e f, of 0] by simp
qed

section \<open>A missing release branch\<close>

text \<open>
  Claim C4 asks that the guard fails on a missing release branch before any fetch, with
  the repository as it was. The fetch runs in front of the guard: here the run ends with
  the guard's error after both fetches were issued, and the repository of the stand-in
  has counted them.
\<close>

theorem missing_branch_after_fetch_counterexample:
  "main 0 (scripted_git (([''git'', ''rev-parse'', ''--abbrev-ref'', ''HEAD''],
                            (0, ''master'' @ [CHR 0x0A]))
                          # ([''git'', ''rev-parse'', ''--verify'', ''segmentio-release''], (1, []))
                          # base_answers))
          False (start (Dir []))
   = Some (Raised (StandardError (branch_missing_message ''1.0.1'')),
       \<lparr>tree = Dir [], repo = 2,
        log = [[''git'', ''rev-parse'', ''--verify'', ''HEAD''],
               [''git'', ''remote'', ''-v''],
               [''git'', ''fetch'', ''origin'', ''master''],
               [''git'', ''fetch'', ''--tags'', ''origin''],
               [''git'', ''rev-parse'', ''--abbrev-ref'', ''HEAD''],
               [''git'', ''rev-parse'', ''--verify'', ''segmentio-release''],
               [''git'', ''describe'', ''master'']]\<rparr>)"
  by (simp add: main_def script_simps)

text \<open>
  Claim C4, as the program has it: when the run is on another branch and
  \<open>git rev-parse --verify segmentio-release\<close> exits with a non-zero status, the run ends
  with the guard's error (or with the failure of \<open>git describe master\<close>, which the guard
  asks for the tag of its message), with or without the merge-skip flag. Up to then the
  start, the remote listing and the two fetches were issued, and after the fetches only
  the three queries of the guard: no checkout, merge, commit or reset.
\<close>

theorem missing_branch_fails_after_fetch:
  assumes "check_output git [''git'', ''rev-parse'', ''--verify'', ''HEAD''] s = (Inr out, s1)"
    and "fetch_master_from_segmentio_analytics_python git s1 = (Inr (), s2)"
    and "check_output git [''git'', ''rev-parse'', ''--abbrev-ref'', ''HEAD''] s2
           = (Inr current_branch, s3)"
    and "current_branch \<noteq> fixed_branch"
    and "call git [''git'', ''rev-parse'', ''--verify'', fixed_branch] s3 = (rc, s4)"
    and "rc \<noteq> 0"
    and "check_output git [''git'', ''describe'', ''master''] s4 = (r, s5)"
  shows "main fuel git skip s
           = Some (Raised (case r of Inl e \<Rightarrow> e
                           | Inr tag \<Rightarrow> StandardError (branch_missing_message (rstrip tag))), s5)
       \<and> log s5 = log s2 @ [[''git'', ''rev-parse'', ''--abbrev-ref'', ''HEAD''],
                             [''git'', ''rev-parse'', ''--verify'', fixed_branch],
                             [''git'', ''describe'', ''master'']]
       \<and> (\<exists>name. log s2 = log s @ [[''git'', ''rev-parse'', ''--verify'', ''HEAD''],
                                     [''git'', ''remote'', ''-v''],
                                     [''git'', ''fetch'', name, ''master''],
                                     [''git'', ''fetch'', ''--tags'', name]])"
proof -
  have g: "checkout_segmentio_branded_branch git s2
             = (Inl (case r of Inl e \<Rightarrow> e
                     | Inr tag \<Rightarrow> StandardError (branch_missing_message (rstrip tag))), s5)"
    using assms(3-7) by (auto simp: checkout_segmentio_branded_branch_def split: sum.splits)
  have 1: "main fuel git skip s
           = Some (Raised (case r of Inl e \<Rightarrow> e
                           | Inr tag \<Rightarrow> StandardError (branch_missing_message (rstrip tag))), s5)"
    using assms(1,2) g by (simp add: main_def prepare_def)
  have 2: "log s5 = log s2 @ [[''git'', ''rev-parse'', ''--abbrev-ref'', ''HEAD''],
                             [''git'', ''rev-parse'', ''--verify'', fixed_branch],
                             [''git'', ''describe'', ''master'']]"
    using log_check_output [OF assms(3)] log_call [OF assms(5)] log_check_output [OF assms(7)]
    by simp
  have 3: "\<exists>name. log s2 = log s1 @ [[''git'', ''remote'', ''-v''],
                                     [''git'', ''fetch'', name, ''master''],
                                     [''git'', ''fetch'', ''--tags'', name]]"
    using assms(2)
    by (auto simp: fetch_master_from_segmentio_analytics_python_def
        get_segmentio_analytics_python_remote_def
        dest!: log_check_output log_check_call split: prod.splits sum.splits option.splits)
  show ?thesis
    using 1 2 3 log_check_output [OF assms(1)] by auto
qed

theorem missing_branch_fails_after_fetch_witness:
  "main 0 (scripted_git (([''git'', ''rev-parse'', ''--abbrev-ref'', ''HEAD''],
                            (0, ''master'' @ [CHR 0x0A]))
                          # ([''git'', ''rev-parse'', ''--verify'', ''segmentio-release''], (128, []))
                          # base_answers))
          True (start (Dir []))
   = Some (Raised (StandardError (branch_missing_message ''1.0.1'')),
       \<lparr>tree = Dir [], repo = 2,
        log = [[''git'', ''rev-parse'', ''--verify'', ''HEAD''],
               [''git'', ''remote'', ''-v''],
               [''git'', ''fetch'', ''origin'', ''master''],
               [''git'', ''fetch'', ''--tags'', ''origin''],
               [''git'', ''rev-parse'', ''--abbrev-ref'', ''HEAD''],
               [''git'', ''rev-parse'', ''--verify'', ''segmentio-release''],
               [''git'', ''describe'', ''master'']]\<rparr>)"
proof -
  let ?g = "scripted_git (([''git'', ''rev-parse'', ''--abbrev-ref'', ''HEAD''],
                            (0, ''master'' @ [CHR 0x0A]))
                          # ([''git'', ''rev-parse'', ''--verify'', ''segmentio-release''], (128, []))
                          # base_answers)"
  let ?c0 = "[''git'', ''rev-parse'', ''--verify'', ''HEAD'']"
  let ?l2 = "[?c0, [''git'', ''remote'', ''-v''],
               [''git'', ''fetch'', ''origin'', ''master''],
               [''git'', ''fetch'', ''--tags'', ''origin'']]"
  let ?l3 = "?l2 @ [[''git'', ''rev-parse'', ''--abbrev-ref'', ''HEAD'']]"
  let ?l4 = "?l3 @ [[''git'', ''rev-parse'', ''--verify'', ''segmentio-release'']]"
  let ?l5 = "?l4 @ [[''git'', ''describe'', ''master'']]"
  have a: "check_output ?g ?c0 (start (Dir []))
             = (Inr (''4f2a9c1'' @ [CHR 0x0A]), \<lparr>tree = Dir [], repo = 0, log = [?c0]\<rparr>)"
    by (simp add: script_simps)
  have b: "fetch_master_from_segmentio_analytics_python ?g \<lparr>tree = Dir [], repo = 0, log = [?c0]\<rparr>
             = (Inr (), \<lparr>tree = Dir [], repo = 2, log = ?l2\<rparr>)"
    by (simp add: script_simps)
  have c: "check_output ?g [''git'', ''rev-parse'', ''--abbrev-ref'', ''HEAD'']
              \<lparr>tree = Dir [], repo = 2, log = ?l2\<rparr>
             = (Inr (''master'' @ [CHR 0x0A]), \<lparr>tree = Dir [], repo = 2, log = ?l3\<rparr>)"
    by (simp add: script_simps)
  have d: "''master'' @ [CHR 0x0A] \<noteq> fixed_branch"
    by (simp add: fixed_branch_def)
  have e: "call ?g [''git'', ''rev-parse'', ''--verify'', fixed_branch]
              \<lparr>tree = Dir [], repo = 2, log = ?l3\<rparr>
             = (128, \<lparr>tree = Dir [], repo = 2, log = ?l4\<rparr>)"
    by (simp add: script_simps)
  have f: "(128::int) \<noteq> 0" by simp
  have h: "check_output ?g [''git'', ''describe'', ''master'']
              \<lparr>tree = Dir [], repo = 2, log = ?l4\<rparr>
             = (Inr (''1.0.1'' @ [CHR 0x0A]), \<lparr>tree = Dir [], repo = 2, log = ?l5\<rparr>)"
    by (simp add: script_simps)
  show ?thesis
    using missing_branch_fails_after_fetch [OF a b c d e f h, of 0 True]
    by (simp add: rstrip_def is_space_def fixed_branch_def start_def)
qed

section \<open>Replacement around an occurrence\<close>

lemma replace_scan_append:
  assumes "\<And>p q. old = p @ q \<Longrightarrow> p \<noteq> [] \<Longrightarrow> q \<noteq> [] \<Longrightarrow> suffix p xs \<Longrightarrow> prefix q ys \<Longrightarrow> False"
  shows "replace_scan old new (xs @ ys) = replace_scan old new xs @ replace_scan old new ys"
  using assms
proof (induction old new xs rule: replace_scan.induct)
  case (1 old new)
  then show ?case by simp
next
  case (2 old new c cs)
  show ?case
  proof (cases "old \<noteq> [] \<and> prefix old (c # cs)")
    case True
    then have le: "length old \<le> length (c # cs)"
      by (auto dest: prefix_length_le)
    have p: "prefix old ((c # cs) @ ys)"
      using True by (intro prefix_prefix) blast
    have ih: "replace_scan old new (drop (length old) (c # cs) @ ys)
             = replace_scan old new (drop (length old) (c # cs)) @ replace_scan old new ys"
    proof (rule "2.IH"(1) [OF True])
      fix p q assume "old = p @ q" "p \<noteq> []" "q \<noteq> []" "suffix p (drop (length old) (c # cs))" "prefix q ys"
      moreover have "suffix (drop (length old) (c # cs)) (c # cs)" by (rule suffix_drop)
      ultimately show False using "2.prems" suffix_order.trans by blast
    qed
    have d: "drop (length old) ((c # cs) @ ys) = drop (length old) (c # cs) @ ys"
      using le by (simp only: drop_append) simp
    have "replace_scan old new ((c # cs) @ ys)
            = new @ replace_scan old new (drop (length old) ((c # cs) @ ys))"
      using True p by simp
    also have "\<dots> = new @ replace_scan old new (drop (length old) (c # cs)) @ replace_scan old new ys"
      by (simp only: d ih)
    also have "\<dots> = replace_scan old new (c # cs) @ replace_scan old new ys"
      using True by simp
    finally show ?thesis .
  next
    case False
    have np: "\<not> (old \<noteq> [] \<and> prefix old ((c # cs) @ ys))"
    proof
      assume a: "old \<noteq> [] \<and> prefix old ((c # cs) @ ys)"
      then have "prefix old (c # cs) \<or> (\<exists>us. old = (c # cs) @ us \<and> prefix us ys)"
        by (simp only: prefix_append)
      then obtain us where us: "old = (c # cs) @ us" "prefix us ys"
        using False a by blast
      then have "us \<noteq> []" using False a by auto
      then show False
        using "2.prems" [of "c # cs" us] us by simp
    qed
    have ih: "replace_scan old new (cs @ ys) = replace_scan old new cs @ replace_scan old new ys"
    proof (rule "2.IH"(2) [OF False])
      fix p q assume "old = p @ q" "p \<noteq> []" "q \<noteq> []" "suffix p cs" "prefix q ys"
      then show False using "2.prems" [of p q] by (simp add: suffix_Cons)
    qed
    show ?thesis using False np ih by auto
  qed
qed

lemma prefix_of_append: "prefix q (w @ b) \<Longrightarrow> prefix q w \<or> prefix w q"
  by (rule prefix_same_cases [of q "w @ b" w]) simp_all

lemma replace_scan_around:
  assumes l: "\<forall>k\<in>set [1..<length old]. \<not> prefix (drop k old) w \<and> \<not> prefix w (drop k old)"
    and r: "\<forall>k\<in>set [1..<length old]. \<not> suffix (take k old) w"
  shows "replace_scan old new (a @ w @ b)
           = replace_scan old new a @ replace_scan old new w @ replace_scan old new b"
proof -
  have k: "length p \<in> set [1..<length old] \<and> take (length p) old = p \<and> drop (length p) old = q"
    if "old = p @ q" "p \<noteq> []" "q \<noteq> []" for p q
  proof -
    have "0 < length p" "0 < length q" using that by simp_all
    then have "Suc 0 \<le> length p" "length p < length p + length q" by arith+
    then show ?thesis using that(1) by simp
  qed
  have 1: "replace_scan old new (a @ w @ b) = replace_scan old new a @ replace_scan old new (w @ b)"
  proof (rule replace_scan_append)
    fix p q assume pq: "old = p @ q" "p \<noteq> []" "q \<noteq> []" and "prefix q (w @ b)"
    then have "prefix q w \<or> prefix w q" by (intro prefix_of_append)
    then show False using k [OF pq] l by metis
  qed
  have 2: "replace_scan old new (w @ b) = replace_scan old new w @ replace_scan old new b"
  proof (rule replace_scan_append)
    fix p q assume pq: "old = p @ q" "p \<noteq> []" "q \<noteq> []" and "suffix p w"
    then show False using k [OF pq] r by metis
  qed
  show ?thesis by (simp only: 1 2)
qed

lemma upt16: "[1..<16] = [1,2,3,4,5,6,7,8,9,10,11,12,13,14,15]"
  by (simp add: upt_rec)

lemma upt15: "[1..<15] = [1,2,3,4,5,6,7,8,9,10,11,12,13,14]"
  by (simp add: upt_rec)

lemma bare_import_bare:
  "replace_scan ''import analytics'' new (a @ ''import analytics'' @ b)
     = replace_scan ''import analytics'' new a @ new @ replace_scan ''import analytics'' new b"
proof -
  have "replace_scan ''import analytics'' new (a @ ''import analytics'' @ b)
     = replace_scan ''import analytics'' new a @ replace_scan ''import analytics'' new ''import analytics''
        @ replace_scan ''import analytics'' new b"
    by (rule replace_scan_around) (simp_all add: upt16 suffix_to_prefix)
  then show ?thesis by simp
qed

lemma from_import_from:
  "replace_scan ''from analytics.'' new (a @ ''from analytics.'' @ b)
     = replace_scan ''from analytics.'' new a @ new @ replace_scan ''from analytics.'' new b"
proof -
  have "replace_scan ''from analytics.'' new (a @ ''from analytics.'' @ b)
     = replace_scan ''from analytics.'' new a @ replace_scan ''from analytics.'' new ''from analytics.''
        @ replace_scan ''from analytics.'' new b"
    by (rule replace_scan_around) (simp_all add: upt15 suffix_to_prefix)
  then show ?thesis by simp
qed

lemma bare_keeps_from:
  "replace_scan ''import analytics'' new (a @ ''from analytics.'' @ b)
     = replace_scan ''import analytics'' new a @ ''from analytics.'' @ replace_scan ''import analytics'' new b"
proof -
  have "replace_scan ''import analytics'' new (a @ ''from analytics.'' @ b)
     = replace_scan ''import analytics'' new a @ replace_scan ''import analytics'' new ''from analytics.''
        @ replace_scan ''import analytics'' new b"
    by (rule replace_scan_around) (simp_all add: upt16 suffix_to_prefix)
  then show ?thesis by simp
qed

lemma from_keeps_new_bare:
  "replace_scan ''from analytics.'' new (a @ ''import segmentio'' @ b)
     = replace_scan ''from analytics.'' new a @ ''import segmentio'' @ replace_scan ''from analytics.'' new b"
proof -
  have "replace_scan ''from analytics.'' new (a @ ''import segmentio'' @ b)
     = replace_scan ''from analytics.'' new a @ replace_scan ''from analytics.'' new ''import segmentio''
        @ replace_scan ''from analytics.'' new b"
    by (rule replace_scan_around) (simp_all add: upt15 suffix_to_prefix)
  then show ?thesis by simp
qed

lemma rewrite_imports_bare:
  "rewrite_imports (a @ ''import analytics'' @ b)
     = rewrite_imports a @ ''import segmentio'' @ rewrite_imports b"
  by (simp only: rewrite_imports_def str_replace_def bare_import_bare from_keeps_new_bare
      list.distinct if_False)

lemma rewrite_imports_from:
  "rewrite_imports (a @ ''from analytics.'' @ b)
     = rewrite_imports a @ ''from segmentio.'' @ rewrite_imports b"
  by (simp only: rewrite_imports_def str_replace_def bare_keeps_from from_import_from
      list.distinct if_False)

lemma rewrite_imports_absent:
  "\<not> contains ''import analytics'' c \<Longrightarrow> \<not> contains ''from analytics.'' c \<Longrightarrow> rewrite_imports c = c"
  by (simp add: rewrite_imports_def str_replace_def replace_scan_absent)

section \<open>The metadata rewriter replaces its literals\<close>

lemma upt23: "[1..<23] = [1,2,3,4,5,6,7,8,9,10,11,12,13,14,15,16,17,18,19,20,21,22]"
  by (simp add: upt_rec)

lemma upt31: "[1..<31] = [1,2,3,4,5,6,7,8,9,10,11,12,13,14,15,16,17,18,19,20,21,22,23,24,25,26,27,28,29,30]"
  by (simp add: upt_rec)

lemma upt40: "[1..<40] = [1,2,3,4,5,6,7,8,9,10,11,12,13,14,15,16,17,18,19,20,21,22,23,24,25,26,27,28,29,30,31,32,33,34,35,36,37,38,39]"
  by (simp add: upt_rec)

lemma str_replace_around:
  assumes "old \<noteq> []"
    and "\<forall>k\<in>set [1..<length old]. \<not> prefix (drop k old) w \<and> \<not> prefix w (drop k old)"
    and "\<forall>k\<in>set [1..<length old]. \<not> suffix (take k old) w"
    and "str_replace old new w = w'"
  shows "str_replace old new (a @ w @ b) = str_replace old new a @ w' @ str_replace old new b"
  using replace_scan_around [OF assms(2,3), of new a b] assms(1,4)
  by (simp only: str_replace_def if_False)

lemma name_replaces_name:
  "str_replace (''name='' @ quoted ''analytics-python'')
     (''name='' @ quoted ''segmentio'') (a @ (''name='' @ quoted ''analytics-python'') @ b)
   = str_replace (''name='' @ quoted ''analytics-python'')
       (''name='' @ quoted ''segmentio'') a
     @ (''name='' @ quoted ''segmentio'')
     @ str_replace (''name='' @ quoted ''analytics-python'')
         (''name='' @ quoted ''segmentio'') b"
  by (rule str_replace_around)
     (simp_all add: quoted_def str_replace_def upt23 upt31 upt40 suffix_to_prefix)

lemma suite_keeps_new_name:
  "str_replace (''test_suite='' @ quoted ''analytics.test.all'')
     (''test_suite='' @ quoted ''segmentio.test.all'') (a @ (''name='' @ quoted ''segmentio'') @ b)
   = str_replace (''test_suite='' @ quoted ''analytics.test.all'')
       (''test_suite='' @ quoted ''segmentio.test.all'') a
     @ (''name='' @ quoted ''segmentio'')
     @ str_replace (''test_suite='' @ quoted ''analytics.test.all'')
         (''test_suite='' @ quoted ''segmentio.test.all'') b"
  by (rule str_replace_around)
     (simp_all add: quoted_def str_replace_def upt23 upt31 upt40 suffix_to_prefix)

lemma packages_keeps_new_name:
  "str_replace (''packages=['' @ quoted ''analytics'' @ '', '' @ quoted ''analytics.test'' @ '']'')
     (''packages=['' @ quoted ''segmentio'' @ '', '' @ quoted ''segmentio.test'' @ '']'') (a @ (''name='' @ quoted ''segmentio'') @ b)
   = str_replace (''packages=['' @ quoted ''analytics'' @ '', '' @ quoted ''analytics.test'' @ '']'')
       (''packages=['' @ quoted ''segmentio'' @ '', '' @ quoted ''segmentio.test'' @ '']'') a
     @ (''name='' @ quoted ''segmentio'')
     @ str_replace (''packages=['' @ quoted ''analytics'' @ '', '' @ quoted ''analytics.test'' @ '']'')
         (''packages=['' @ quoted ''segmentio'' @ '', '' @ quoted ''segmentio.test'' @ '']'') b"
  by (rule str_replace_around)
     (simp_all add: quoted_def str_replace_def upt23 upt31 upt40 suffix_to_prefix)

lemma name_keeps_suite:
  "str_replace (''name='' @ quoted ''analytics-python'')
     (''name='' @ quoted ''segmentio'') (a @ (''test_suite='' @ quoted ''analytics.test.all'') @ b)
   = str_replace (''name='' @ quoted ''analytics-python'')
       (''name='' @ quoted ''segmentio'') a
     @ (''test_suite='' @ quoted ''analytics.test.all'')
     @ str_replace (''name='' @ quoted ''analytics-python'')
         (''name='' @ quoted ''segmentio'') b"
  by (rule str_replace_around)
     (simp_all add: quoted_def str_replace_def upt23 upt31 upt40 suffix_to_prefix)

lemma suite_replaces_suite:
  "str_replace (''test_suite='' @ quoted ''analytics.test.all'')
     (''test_suite='' @ quoted ''segmentio.test.all'') (a @ (''test_suite='' @ quoted ''analytics.test.all'') @ b)
   = str_replace (''test_suite='' @ quoted ''analytics.test.all'')
       (''test_suite='' @ quoted ''segmentio.test.all'') a
     @ (''test_suite='' @ quoted ''segmentio.test.all'')
     @ str_replace (''test_suite='' @ quoted ''analytics.test.all'')
         (''test_suite='' @ quoted ''segmentio.test.all'') b"
  by (rule str_replace_around)
     (simp_all add: quoted_def str_replace_def upt23 upt31 upt40 suffix_to_prefix)

lemma packages_keeps_new_suite:
  "str_replace (''packages=['' @ quoted ''analytics'' @ '', '' @ quoted ''analytics.test'' @ '']'')
     (''packages=['' @ quoted ''segmentio'' @ '', '' @ quoted ''segmentio.test'' @ '']'') (a @ (''test_suite='' @ quoted ''segmentio.test.all'') @ b)
   = str_replace (''packages=['' @ quoted ''analytics'' @ '', '' @ quoted ''analytics.test'' @ '']'')
       (''packages=['' @ quoted ''segmentio'' @ '', '' @ quoted ''segmentio.test'' @ '']'') a
     @ (''test_suite='' @ quoted ''segmentio.test.all'')
     @ str_replace (''packages=['' @ quoted ''analytics'' @ '', '' @ quoted ''analytics.test'' @ '']'')
         (''packages=['' @ quoted ''segmentio'' @ '', '' @ quoted ''segmentio.test'' @ '']'') b"
  by (rule str_replace_around)
     (simp_all add: quoted_def str_replace_def upt23 upt31 upt40 suffix_to_prefix)

lemma name_keeps_packages:
  "str_replace (''name='' @ quoted ''analytics-python'')
     (''name='' @ quoted ''segmentio'') (a @ (''packages=['' @ quoted ''analytics'' @ '', '' @ quoted ''analytics.test'' @ '']'') @ b)
   = str_replace (''name='' @ quoted ''analytics-python'')
       (''name='' @ quoted ''segmentio'') a
     @ (''packages=['' @ quoted ''analytics'' @ '', '' @ quoted ''analytics.test'' @ '']'')
     @ str_replace (''name='' @ quoted ''analytics-python'')
         (''name='' @ quoted ''segmentio'') b"
  by (rule str_replace_around)
     (simp_all add: quoted_def str_replace_def upt23 upt31 upt40 suffix_to_prefix)

lemma suite_keeps_packages:
  "str_replace (''test_suite='' @ quoted ''analytics.test.all'')
     (''test_suite='' @ quoted ''segmentio.test.all'') (a @ (''packages=['' @ quoted ''analytics'' @ '', '' @ quoted ''analytics.test'' @ '']'') @ b)
   = str_replace (''test_suite='' @ quoted ''analytics.test.all'')
       (''test_suite='' @ quoted ''segmentio.test.all'') a
     @ (''packages=['' @ quoted ''analytics'' @ '', '' @ quoted ''analytics.test'' @ '']'')
     @ str_replace (''test_suite='' @ quoted ''analytics.test.all'')
         (''test_suite='' @ quoted ''segmentio.test.all'') b"
  by (rule str_replace_around)
     (simp_all add: quoted_def str_replace_def upt23 upt31 upt40 suffix_to_prefix)

lemma packages_replaces_packages:
  "str_replace (''packages=['' @ quoted ''analytics'' @ '', '' @ quoted ''analytics.test'' @ '']'')
     (''packages=['' @ quoted ''segmentio'' @ '', '' @ quoted ''segmentio.test'' @ '']'') (a @ (''packages=['' @ quoted ''analytics'' @ '', '' @ quoted ''analytics.test'' @ '']'') @ b)
   = str_replace (''packages=['' @ quoted ''analytics'' @ '', '' @ quoted ''analytics.test'' @ '']'')
       (''packages=['' @ quoted ''segmentio'' @ '', '' @ quoted ''segmentio.test'' @ '']'') a
     @ (''packages=['' @ quoted ''segmentio'' @ '', '' @ quoted ''segmentio.test'' @ '']'')
     @ str_replace (''packages=['' @ quoted ''analytics'' @ '', '' @ quoted ''analytics.test'' @ '']'')
         (''packages=['' @ quoted ''segmentio'' @ '', '' @ quoted ''segmentio.test'' @ '']'') b"
  by (rule str_replace_around)
     (simp_all add: quoted_def str_replace_def upt23 upt31 upt40 suffix_to_prefix)

lemma refactor_setup_text_name:
  "refactor_setup_text (a @ (''name='' @ quoted ''analytics-python'') @ b)
   = refactor_setup_text a @ (''name='' @ quoted ''segmentio'') @ refactor_setup_text b"
  unfolding refactor_setup_text_def
  by (simp only: name_replaces_name suite_keeps_new_name packages_keeps_new_name)

lemma refactor_setup_text_suite:
  "refactor_setup_text (a @ (''test_suite='' @ quoted ''analytics.test.all'') @ b)
   = refactor_setup_text a @ (''test_suite='' @ quoted ''segmentio.test.all'') @ refactor_setup_text b"
  unfolding refactor_setup_text_def
  by (simp only: name_keeps_suite suite_replaces_suite packages_keeps_new_suite)

lemma refactor_setup_text_packages:
  "refactor_setup_text (a @ (''packages=['' @ quoted ''analytics'' @ '', '' @ quoted ''analytics.test'' @ '']'') @ b)
   = refactor_setup_text a @ (''packages=['' @ quoted ''segmentio'' @ '', '' @ quoted ''segmentio.test'' @ '']'') @ refactor_setup_text b"
  unfolding refactor_setup_text_def
  by (simp only: name_keeps_packages suite_keeps_packages packages_replaces_packages)

text \<open>
  Claim C7. The metadata rewriter reads \<open>setup.py\<close>, applies the three literal
  replacements (distribution name, test-suite entry point, package list) and writes the
  result back; it raises nothing when the file is there. Every occurrence of one of the
  three literals is replaced by its new literal, the text on either side being rewritten
  on its own. A replacement whose literal does not occur in its input returns the input,
  and when none of the three literals occurs the descriptor, and with it the working
  directory, is left as it was.
\<close>

theorem metadata_rewriter_three_literals:
  assumes "lookup [''setup.py''] fs = Some (File c)"
  shows "refactor_setup_with_segmentio_branding fs
           = Inr (graft [''setup.py''] (File (refactor_setup_text c)) fs)
       \<and> (\<forall>old new s. \<not> contains old s \<longrightarrow> str_replace old new s = s)
       \<and> (\<not> contains (''name='' @ quoted ''analytics-python'') c
            \<and> \<not> contains (''test_suite='' @ quoted ''analytics.test.all'') c
            \<and> \<not> contains (''packages=['' @ quoted ''analytics'' @ '', '' @ quoted ''analytics.test'' @ '']'') c
          \<longrightarrow> refactor_setup_text c = c \<and> refactor_setup_with_segmentio_branding fs = Inr fs)
       \<and> (\<forall>a b. refactor_setup_text (a @ (''name='' @ quoted ''analytics-python'') @ b)
                   = refactor_setup_text a @ (''name='' @ quoted ''segmentio'') @ refactor_setup_text b)
       \<and> (\<forall>a b. refactor_setup_text (a @ (''test_suite='' @ quoted ''analytics.test.all'') @ b)
                   = refactor_setup_text a @ (''test_suite='' @ quoted ''segmentio.test.all'') @ refactor_setup_text b)
       \<and> (\<forall>a b. refactor_setup_text (a @ (''packages=['' @ quoted ''analytics'' @ '', '' @ quoted ''analytics.test'' @ '']'') @ b)
                   = refactor_setup_text a @ (''packages=['' @ quoted ''segmentio'' @ '', '' @ quoted ''segmentio.test'' @ '']'') @ refactor_setup_text b)
       \<and> (\<forall>s. \<not> contains (''name='' @ quoted ''analytics-python'') s
               \<and> \<not> contains (''test_suite='' @ quoted ''analytics.test.all'') s
               \<and> \<not> contains (''packages=['' @ quoted ''analytics'' @ '', '' @ quoted ''analytics.test'' @ '']'') s
             \<longrightarrow> refactor_setup_text s = s)"
proof -
  from assms obtain es where fs: "fs = Dir es" and m: "map_of es ''setup.py'' = Some (File c)"
    using lookup_single by blast
  have run: "refactor_setup_with_segmentio_branding fs
           = Inr (graft [''setup.py''] (File (refactor_setup_text c)) fs)"
    using m by (simp add: refactor_setup_with_segmentio_branding_def read_file_def write_file_def fs)
  have same: "refactor_setup_text c = c \<Longrightarrow> graft [''setup.py''] (File (refactor_setup_text c)) fs = fs"
    using m by (simp add: fs update_same)
  have noop: "refactor_setup_text s = s"
    if a: "\<not> contains (''name='' @ quoted ''analytics-python'') s
            \<and> \<not> contains (''test_suite='' @ quoted ''analytics.test.all'') s
            \<and> \<not> contains (''packages=['' @ quoted ''analytics'' @ '', '' @ quoted ''analytics.test'' @ '']'') s"
    for s
  proof -
    have 1: "str_replace (''name='' @ quoted ''analytics-python'') (''name='' @ quoted ''segmentio'') s = s"
      using a by (intro str_replace_absent) blast
    have 2: "str_replace (''test_suite='' @ quoted ''analytics.test.all'')
               (''test_suite='' @ quoted ''segmentio.test.all'') s = s"
      using a by (intro str_replace_absent) blast
    have 3: "str_replace (''packages=['' @ quoted ''analytics'' @ '', '' @ quoted ''analytics.test'' @ '']'')
               (''packages=['' @ quoted ''segmentio'' @ '', '' @ quoted ''segmentio.test'' @ '']'') s = s"
      using a by (intro str_replace_absent) blast
    show "refactor_setup_text s = s"
      unfolding refactor_setup_text_def by (simp only: 1 2 3)
  qed
  have gen: "\<forall>old new s. \<not> contains old s \<longrightarrow> str_replace old new s = s"
    by (blast intro: str_replace_absent)
  have quiet: "\<not> contains (''name='' @ quoted ''analytics-python'') c
            \<and> \<not> contains (''test_suite='' @ quoted ''analytics.test.all'') c
            \<and> \<not> contains (''packages=['' @ quoted ''analytics'' @ '', '' @ quoted ''analytics.test'' @ '']'') c
          \<longrightarrow> refactor_setup_text c = c \<and> refactor_setup_with_segmentio_branding fs = Inr fs"
    using run same noop [of c] by metis
  have h1: "\<forall>a b. refactor_setup_text (a @ (''name='' @ quoted ''analytics-python'') @ b)
                   = refactor_setup_text a @ (''name='' @ quoted ''segmentio'') @ refactor_setup_text b"
    using refactor_setup_text_name by blast
  have h2: "\<forall>a b. refactor_setup_text (a @ (''test_suite='' @ quoted ''analytics.test.all'') @ b)
                   = refactor_setup_text a @ (''test_suite='' @ quoted ''segmentio.test.all'') @ refactor_setup_text b"
    using refactor_setup_text_suite by blast
  have h3: "\<forall>a b. refactor_setup_text (a @ (''packages=['' @ quoted ''analytics'' @ '', '' @ quoted ''analytics.test'' @ '']'') @ b)
                   = refactor_setup_text a @ (''packages=['' @ quoted ''segmentio'' @ '', '' @ quoted ''segmentio.test'' @ '']'') @ refactor_setup_text b"
    using refactor_setup_text_packages by blast
  have n: "\<forall>s. \<not> contains (''name='' @ quoted ''analytics-python'') s
               \<and> \<not> contains (''test_suite='' @ quoted ''analytics.test.all'') s
               \<and> \<not> contains (''packages=['' @ quoted ''analytics'' @ '', '' @ quoted ''analytics.test'' @ '']'') s
             \<longrightarrow> refactor_setup_text s = s"
    using noop by blast
  show ?thesis
    by (intro conjI) (rule run gen quiet h1 h2 h3 n)+
qed

theorem metadata_rewriter_three_literals_witness:
  "lookup [''setup.py'']
     (Dir [(''setup.py'',
            File (''setup(name='' @ quoted ''analytics-python'' @ '', test_suite=''
                  @ quoted ''analytics.test.all'' @ '', version=1)''))])
     = Some (File (''setup(name='' @ quoted ''analytics-python'' @ '', test_suite=''
                   @ quoted ''analytics.test.all'' @ '', version=1)''))
   \<and> refactor_setup_with_segmentio_branding
       (Dir [(''setup.py'',
              File (''setup(name='' @ quoted ''analytics-python'' @ '', test_suite=''
                    @ quoted ''analytics.test.all'' @ '', version=1)''))])
     = Inr (Dir [(''setup.py'',
                  File (''setup(name='' @ quoted ''segmentio'' @ '', test_suite=''
                        @ quoted ''segmentio.test.all'' @ '', version=1)''))])"
  using metadata_rewriter_three_literals
    [of "Dir [(''setup.py'',
            File (''setup(name='' @ quoted ''analytics-python'' @ '', test_suite=''
                  @ quoted ''analytics.test.all'' @ '', version=1)''))]"
        "''setup(name='' @ quoted ''analytics-python'' @ '', test_suite=''
                  @ quoted ''analytics.test.all'' @ '', version=1)''"]
  by (simp add: quoted_def refactor_setup_text_def str_replace_def)

section \<open>The rewriter builds the image of the source tree\<close>

lemma lookup_append:
  "lookup (p @ q) fs = (case lookup p fs of None \<Rightarrow> None | Some n \<Rightarrow> lookup q n)"
  by (induction p arbitrary: fs) (auto split: node.splits option.splits)

lemma modify_dir_graft:
  "lookup p fs = Some (Dir es) \<Longrightarrow> modify_dir p f fs = Some (graft p (Dir (f es)) fs)"
  by (induction p arbitrary: fs) (auto split: node.splits option.splits)

lemma lookup_graft_same: "lookup p fs = Some m \<Longrightarrow> lookup p (graft p n fs) = Some n"
  by (induction p arbitrary: fs) (auto simp: update_conv' split: node.splits option.splits)

lemma lookup_graft_other:
  "x \<noteq> y \<Longrightarrow> lookup (x # p) (graft (y # q) n fs) = lookup (x # p) fs"
  by (auto simp: update_conv' split: node.splits option.splits)

lemma graft_graft: "graft p n (graft p m fs) = graft p n fs"
  by (induction p arbitrary: fs) (auto simp: update_conv' split: node.splits option.splits)

lemma graft_append:
  "lookup p fs = Some m \<Longrightarrow> graft (p @ q) n fs = graft p (graft q n m) fs"
  by (induction p arbitrary: fs) (auto split: node.splits option.splits)

lemma update_absent: "map_of es x = None \<Longrightarrow> AList.update x v es = es @ [(x, v)]"
  by (induction es) (auto split: if_splits)

lemma mkdir_graft:
  assumes "lookup d fs = Some (Dir es)" and "map_of es x = None"
  shows "mkdir d x fs = Inr (graft d (Dir (es @ [(x, Dir [])])) fs)"
  using assms by (simp add: mkdir_def lookup_append modify_dir_graft update_absent)

lemma write_file_graft:
  assumes "lookup d fs = Some (Dir es)" and "map_of es x = None"
  shows "write_file d x c fs = Inr (graft d (Dir (es @ [(x, File c)])) fs)"
  using assms by (simp add: write_file_def lookup_append modify_dir_graft update_absent)

lemma graft_id: "lookup p fs = Some n \<Longrightarrow> graft p n fs = fs"
  by (induction p arbitrary: fs) (auto simp: update_triv split: node.splits option.splits)

lemma update_snoc_absent:
  "map_of T x = None \<Longrightarrow> AList.update x v (T @ [(x, w)]) = T @ [(x, v)]"
  by (induction T) (auto split: if_splits)

lemma join_path_snoc: "q \<noteq> [] \<Longrightarrow> join_path (q @ [x]) = join_path q @ ''/'' @ x"
  by (induction q rule: join_path.induct) auto

lemma prefix_yp:
  "r \<noteq> [] \<Longrightarrow> prefix ''yp.'' (r @ CHR ''/'' # t) = prefix ''yp.'' r"
  by (cases r; cases "tl r"; cases "tl (tl r)") auto

lemma endswith_join:
  assumes "x \<noteq> []" and "q \<noteq> []"
  shows "endswith (join_path (q @ [x])) ''.py'' = endswith x ''.py''"
proof -
  have "suffix ''.py'' (join_path q @ ''/'' @ x) = prefix ''yp.'' (rev x @ CHR ''/'' # rev (join_path q))"
    by (simp add: suffix_to_prefix)
  also have "\<dots> = prefix ''yp.'' (rev x)"
    using assms(1) by (intro prefix_yp) simp
  also have "\<dots> = suffix ''.py'' x"
    by (simp add: suffix_to_prefix)
  finally show ?thesis
    using assms(2) by (simp add: endswith_def join_path_snoc)
qed

lemma map_of_mirror:
  "map_of (mirror_entries es) x
     = (if prefix ''.'' x then None else map_option (mirror x) (map_of es x))"
  by (induction es) auto

lemma entry_file:
  assumes src: "lookup (''analytics'' # rel) fs = Some (Dir aes)"
    and x: "map_of aes x = Some (File c)" "x \<noteq> []"
    and tgt: "lookup (''segmentio'' # rel) fs = Some (Dir T)" "map_of T x = None"
  shows "branded_entry rec rel x fs
           = Some (Inr (), graft (''segmentio'' # rel) (Dir (T @ [(x, mirror x (File c))])) fs)"
proof -
  have l: "lookup (''analytics'' # rel @ [x]) fs = Some (File c)"
    using src x(1) lookup_append [of "''analytics'' # rel" "[x]" fs] by simp
  have e: "endswith (join_path (''analytics'' # rel @ [x])) ''.py'' = endswith x ''.py''"
    using endswith_join [OF x(2), of "''analytics'' # rel"] by simp
  have w: "write_file (''segmentio'' # rel) x c' fs
             = Inr (graft (''segmentio'' # rel) (Dir (T @ [(x, File c')])) fs)" for c'
    using tgt by (rule write_file_graft)
  show ?thesis
    unfolding branded_entry_def
    by (cases "endswith x ''.py''")
       (simp_all only: l e w isdir_def read_file_def copyfile_def mirror.simps
          option.case node.case sum.case if_False if_True)
qed

lemma entry_dir:
  assumes IH: "\<And>rel' fs'. lookup (''analytics'' # rel') fs' = Some (Dir ks)
                 \<Longrightarrow> lookup (''segmentio'' # rel') fs' = Some (Dir [])
                 \<Longrightarrow> rec rel' fs'
                       = Some (Inr (), graft (''segmentio'' # rel') (Dir (mirror_entries ks)) fs')"
    and src: "lookup (''analytics'' # rel) fs = Some (Dir aes)"
    and x: "map_of aes x = Some (Dir ks)"
    and tgt: "lookup (''segmentio'' # rel) fs = Some (Dir T)" "map_of T x = None"
  shows "branded_entry rec rel x fs
           = Some (Inr (), graft (''segmentio'' # rel) (Dir (T @ [(x, mirror x (Dir ks))])) fs)"
proof -
  let ?fs1 = "graft (''segmentio'' # rel) (Dir (T @ [(x, Dir [])])) fs"
  have l: "lookup (''analytics'' # rel @ [x]) fs = Some (Dir ks)"
    using src x lookup_append [of "''analytics'' # rel" "[x]" fs] by simp
  have m: "mkdir (''segmentio'' # rel) x fs = Inr ?fs1"
    using tgt by (rule mkdir_graft)
  have t1: "lookup (''segmentio'' # rel) ?fs1 = Some (Dir (T @ [(x, Dir [])]))"
    using tgt(1) by (rule lookup_graft_same)
  have s1: "lookup (''analytics'' # rel @ [x]) ?fs1 = Some (Dir ks)"
    using l lookup_graft_other [of "''analytics''" "''segmentio''" "rel @ [x]" rel] by simp
  have t2: "lookup (''segmentio'' # rel @ [x]) ?fs1 = Some (Dir [])"
    using t1 tgt(2) lookup_append [of "''segmentio'' # rel" "[x]" ?fs1]
    by (simp add: map_add_def)
  have r: "rec (rel @ [x]) ?fs1
             = Some (Inr (), graft (''segmentio'' # rel @ [x]) (Dir (mirror_entries ks)) ?fs1)"
    using s1 t2 by (rule IH)
  have "graft (''segmentio'' # rel @ [x]) (Dir (mirror_entries ks)) ?fs1
          = graft (''segmentio'' # rel) (graft [x] (Dir (mirror_entries ks)) (Dir (T @ [(x, Dir [])]))) ?fs1"
    using graft_append [OF t1, of "[x]"] by simp
  also have "graft [x] (Dir (mirror_entries ks)) (Dir (T @ [(x, Dir [])]))
          = Dir (T @ [(x, Dir (mirror_entries ks))])"
    using tgt(2) by (simp add: map_add_def update_snoc_absent)
  also have "graft (''segmentio'' # rel) (Dir (T @ [(x, Dir (mirror_entries ks))])) ?fs1
          = graft (''segmentio'' # rel) (Dir (T @ [(x, Dir (mirror_entries ks))])) fs"
    by (rule graft_graft)
  finally have g: "graft (''segmentio'' # rel @ [x]) (Dir (mirror_entries ks)) ?fs1
          = graft (''segmentio'' # rel) (Dir (T @ [(x, mirror x (Dir ks))])) fs"
    by simp
  show ?thesis
    unfolding branded_entry_def
    by (simp only: l m r g isdir_def option.case node.case sum.case if_True)
qed

lemma loop_ok:
  assumes IH: "\<And>rel' fs' ks. height_entries ks < k \<Longrightarrow> wf_node (Dir ks)
                 \<Longrightarrow> lookup (''analytics'' # rel') fs' = Some (Dir ks)
                 \<Longrightarrow> lookup (''segmentio'' # rel') fs' = Some (Dir [])
                 \<Longrightarrow> rec rel' fs'
                       = Some (Inr (), graft (''segmentio'' # rel') (Dir (mirror_entries ks)) fs')"
  shows "lookup (''analytics'' # rel) fs = Some (Dir aes)
     \<Longrightarrow> \<forall>(x, n) \<in> set bes. map_of aes x = Some n
     \<Longrightarrow> wf_entries bes \<Longrightarrow> distinct (map fst bes) \<Longrightarrow> height_entries bes \<le> k
     \<Longrightarrow> lookup (''segmentio'' # rel) fs = Some (Dir T)
     \<Longrightarrow> \<forall>(x, n) \<in> set bes. map_of T x = None
     \<Longrightarrow> branded_loop rec rel (filter (\<lambda>x. \<not> prefix ''.'' x) (map fst bes)) fs
           = Some (Inr (), graft (''segmentio'' # rel) (Dir (T @ mirror_entries bes)) fs)"
proof (induction bes arbitrary: fs T)
  case Nil
  have "graft (''segmentio'' # rel) (Dir T) fs = fs"
    using Nil.prems(6) by (rule graft_id)
  then show ?case
    by (simp only: list.map filter.simps branded_loop.simps mirror_entries.simps append_Nil2)
next
  case (Cons e bes)
  obtain x n where e: "e = (x, n)" by (cases e)
  have rest: "\<forall>(y, m) \<in> set bes. map_of aes y = Some m" "wf_entries bes"
    "distinct (map fst bes)" "height_entries bes \<le> k"
    using Cons.prems e by auto
  show ?case
  proof (cases "prefix ''.'' x")
    case True
    have "branded_loop rec rel (filter (\<lambda>x. \<not> prefix ''.'' x) (map fst bes)) fs
           = Some (Inr (), graft (''segmentio'' # rel) (Dir (T @ mirror_entries bes)) fs)"
      using Cons.prems(1) rest Cons.prems(6) by (rule Cons.IH) (use Cons.prems(7) in auto)
    then show ?thesis using True e by simp
  next
    case False
    let ?T' = "T @ [(x, mirror x n)]"
    let ?fs1 = "graft (''segmentio'' # rel) (Dir ?T') fs"
    have xa: "map_of aes x = Some n" and xne: "x \<noteq> []" and wn: "wf_node n"
      and hn: "height n \<le> k" and xT: "map_of T x = None"
      using Cons.prems e by auto
    have entry: "branded_entry rec rel x fs = Some (Inr (), ?fs1)"
    proof (cases n)
      case (File c)
      show ?thesis
        using Cons.prems(1) xa xne Cons.prems(6) xT unfolding File by (rule entry_file)
    next
      case (Dir ks)
      have "height_entries ks < k" "wf_node (Dir ks)"
        using hn wn Dir by auto
      then have rec: "\<And>rel' fs'. lookup (''analytics'' # rel') fs' = Some (Dir ks)
                 \<Longrightarrow> lookup (''segmentio'' # rel') fs' = Some (Dir [])
                 \<Longrightarrow> rec rel' fs'
                       = Some (Inr (), graft (''segmentio'' # rel') (Dir (mirror_entries ks)) fs')"
        using IH by blast
      show ?thesis
        using rec Cons.prems(1) xa Cons.prems(6) xT unfolding Dir by (rule entry_dir)
    qed
    have s1: "lookup (''analytics'' # rel) ?fs1 = Some (Dir aes)"
      using Cons.prems(1) lookup_graft_other [of "''analytics''" "''segmentio''" rel rel] by simp
    have t1: "lookup (''segmentio'' # rel) ?fs1 = Some (Dir ?T')"
      using Cons.prems(6) by (rule lookup_graft_same)
    have fresh: "\<forall>(y, m) \<in> set bes. map_of ?T' y = None"
    proof safe
      fix y m assume ym: "(y, m) \<in> set bes"
      then have "y \<noteq> x" "map_of T y = None"
        using Cons.prems(4,7) e by force+
      then show "map_of ?T' y = None" by (simp add: map_add_def)
    qed
    have "branded_loop rec rel (filter (\<lambda>x. \<not> prefix ''.'' x) (map fst bes)) ?fs1
           = Some (Inr (), graft (''segmentio'' # rel) (Dir (?T' @ mirror_entries bes)) ?fs1)"
      using s1 rest t1 fresh by (rule Cons.IH)
    then have "branded_loop rec rel (filter (\<lambda>x. \<not> prefix ''.'' x) (map fst bes)) ?fs1
           = Some (Inr (), graft (''segmentio'' # rel) (Dir (T @ mirror_entries (e # bes))) fs)"
      using False e by (simp add: graft_graft del: graft.simps)
    then show ?thesis
      using False e entry by simp
  qed
qed

lemma create_ok:
  "height_entries aes < k \<Longrightarrow> wf_node (Dir aes)
   \<Longrightarrow> lookup (''analytics'' # rel) fs = Some (Dir aes)
   \<Longrightarrow> lookup (''segmentio'' # rel) fs = Some (Dir [])
   \<Longrightarrow> create_segmentio_branded_package k rel fs
         = Some (Inr (), graft (''segmentio'' # rel) (Dir (mirror_entries aes)) fs)"
proof (induction k arbitrary: aes rel fs)
  case 0
  then show ?case by simp
next
  case (Suc k)
  have g: "glob_star (''analytics'' # rel) fs = filter (\<lambda>x. \<not> prefix ''.'' x) (map fst aes)"
    using Suc.prems(3) by (simp only: glob_star_def option.case node.case)
  have m: "\<forall>(x, n) \<in> set aes. map_of aes x = Some n"
    using Suc.prems(2) by auto
  have "branded_loop (create_segmentio_branded_package k) rel
          (filter (\<lambda>x. \<not> prefix ''.'' x) (map fst aes)) fs
        = Some (Inr (), graft (''segmentio'' # rel) (Dir ([] @ mirror_entries aes)) fs)"
  proof (rule loop_ok [where k = k and aes = aes])
    show "create_segmentio_branded_package k rel' fs'
            = Some (Inr (), graft (''segmentio'' # rel') (Dir (mirror_entries ks)) fs')"
      if "height_entries ks < k" "wf_node (Dir ks)"
        "lookup (''analytics'' # rel') fs' = Some (Dir ks)"
        "lookup (''segmentio'' # rel') fs' = Some (Dir [])" for rel' fs' ks
      using that by (rule Suc.IH)
  qed (use Suc.prems m in auto)
  then show ?case
    by (simp only: create_segmentio_branded_package.simps g append_Nil)
qed

lemma clear_target:
  assumes "\<forall>c. map_of es ''segmentio'' \<noteq> Some (File c)"
  shows "(if isdir [''segmentio''] (Dir es) then rmtree [] ''segmentio'' (Dir es) else Inr (Dir es))
           = Inr (Dir (AList.delete ''segmentio'' es))"
proof (cases "map_of es ''segmentio''")
  case None
  then have "''segmentio'' \<notin> fst ` set es"
    by (simp add: map_of_eq_None_iff)
  then show ?thesis
    using None by (simp add: isdir_def)
next
  case (Some n)
  then obtain ks where "n = Dir ks"
    using assms by (cases n) auto
  then show ?thesis
    using Some by (simp add: isdir_def rmtree_def)
qed

lemma regenerate_ok:
  assumes root: "fs = Dir es"
    and wf: "wf_node (Dir (analytics_entries fs))"
    and tgt: "\<forall>c. lookup [''segmentio''] fs \<noteq> Some (File c)"
    and fuel: "height_entries (analytics_entries fs) < fuel"
  shows "regenerate fuel fs = Some (Inr (), rebuilt fs)"
proof -
  let ?es1 = "AList.delete ''segmentio'' es"
  let ?fs2 = "Dir (?es1 @ [(''segmentio'', Dir [])])"
  have none: "map_of ?es1 ''segmentio'' = None"
    by (simp add: delete_conv')
  have c: "(if isdir [''segmentio''] fs then rmtree [] ''segmentio'' fs else Inr fs) = Inr (Dir ?es1)"
    unfolding root using tgt root by (intro clear_target) (auto split: option.splits)
  have m: "mkdir [] ''segmentio'' (Dir ?es1) = Inr ?fs2"
    using mkdir_graft [of "[]" "Dir ?es1" ?es1 "''segmentio''"] none by simp
  have r: "regenerate fuel fs = create_segmentio_branded_package fuel [] ?fs2"
    unfolding regenerate_def by (simp only: c m sum.case)
  have src: "lookup [''analytics''] ?fs2 = lookup [''analytics''] fs"
    by (simp add: root map_add_def split: option.splits)
  have t2: "lookup [''segmentio''] ?fs2 = Some (Dir [])"
    using none by (simp add: map_add_def)
  show ?thesis
  proof (cases "\<exists>aes. lookup [''analytics''] fs = Some (Dir aes)")
    case True
    then obtain aes where a: "lookup [''analytics''] fs = Some (Dir aes)" by blast
    then have ae: "analytics_entries fs = aes"
      by (simp add: analytics_entries_def)
    have "create_segmentio_branded_package fuel [] ?fs2
            = Some (Inr (), graft [''segmentio''] (Dir (mirror_entries aes)) ?fs2)"
      using fuel wf a src t2 unfolding ae by (intro create_ok) simp_all
    moreover have "graft [''segmentio''] (Dir (mirror_entries aes)) ?fs2 = rebuilt fs"
      using none by (simp add: rebuilt_def root ae [unfolded root] map_add_def update_snoc_absent)
    ultimately show ?thesis using r by simp
  next
    case False
    then have ae: "analytics_entries fs = []"
      by (auto simp: analytics_entries_def split: option.splits node.splits)
    have g: "glob_star [''analytics''] ?fs2 = []"
      using False src by (auto simp: glob_star_def split: option.splits node.splits)
    obtain k where k: "fuel = Suc k"
      using fuel by (cases fuel) auto
    have "create_segmentio_branded_package fuel [] ?fs2 = Some (Inr (), ?fs2)"
      unfolding k by (simp only: create_segmentio_branded_package.simps g branded_loop.simps)
    moreover have "rebuilt fs = ?fs2"
      by (simp add: rebuilt_def root ae [unfolded root])
    ultimately show ?thesis using r by simp
  qed
qed

lemma lookup_in_file: "p \<noteq> [] \<Longrightarrow> lookup p (File c) = None"
  by (cases p) auto

lemma lookup_mirror_hidden:
  "\<exists>x\<in>set p. prefix ''.'' x \<Longrightarrow> lookup p (Dir (mirror_entries es)) = None"
proof (induction p arbitrary: es)
  case Nil
  then show ?case by simp
next
  case (Cons x q)
  show ?case
  proof (cases "prefix ''.'' x")
    case True
    then show ?thesis by (simp add: map_of_mirror)
  next
    case False
    then have q: "\<exists>y\<in>set q. prefix ''.'' y" and qne: "q \<noteq> []"
      using Cons.prems by auto
    show ?thesis
    proof (cases "map_of es x")
      case None
      then show ?thesis using False by (simp add: map_of_mirror)
    next
      case (Some n)
      show ?thesis
      proof (cases n)
        case (File c)
        then show ?thesis
          using False Some qne by (simp add: map_of_mirror lookup_in_file)
      next
        case (Dir ks)
        then show ?thesis
          using False Some Cons.IH [OF q, of ks] by (simp add: map_of_mirror)
      qed
    qed
  qed
qed

lemma lookup_mirror_visible:
  "p \<noteq> [] \<Longrightarrow> \<forall>x\<in>set p. \<not> prefix ''.'' x \<Longrightarrow> lookup p (Dir es) = Some n
   \<Longrightarrow> lookup p (Dir (mirror_entries es)) = Some (mirror (last p) n)"
proof (induction p arbitrary: es)
  case Nil
  then show ?case by simp
next
  case (Cons x q)
  from Cons.prems(3) obtain m where m: "map_of es x = Some m" and l: "lookup q m = Some n"
    by (auto split: option.splits)
  show ?case
  proof (cases q)
    case Nil
    then show ?thesis using m l Cons.prems(2) by (simp add: map_of_mirror)
  next
    case (Cons y q')
    then obtain ks where ks: "m = Dir ks"
      using l by (cases m) auto
    have "lookup q (Dir (mirror_entries ks)) = Some (mirror (last q) n)"
      using Cons.IH [of ks] Cons Cons.prems(2) l ks by simp
    then show ?thesis
      using m ks Cons Cons.prems(2) by (simp add: map_of_mirror)
  qed
qed

lemma lookup_mirror_source:
  "p \<noteq> [] \<Longrightarrow> lookup p (Dir (mirror_entries es)) = Some m \<Longrightarrow> \<exists>n. lookup p (Dir es) = Some n"
proof (induction p arbitrary: es)
  case Nil
  then show ?case by simp
next
  case (Cons x q)
  from Cons.prems(2) obtain n where v: "\<not> prefix ''.'' x" and n: "map_of es x = Some n"
    and l: "lookup q (mirror x n) = Some m"
    by (auto simp: map_of_mirror split: option.splits if_splits)
  show ?case
  proof (cases q)
    case Nil
    then show ?thesis using n by simp
  next
    case (Cons y q')
    then obtain ks where ks: "n = Dir ks"
      using l by (cases n) auto
    then have "\<exists>n'. lookup q (Dir ks) = Some n'"
      using Cons.IH [of ks] Cons l by simp
    then show ?thesis using n ks by simp
  qed
qed

lemma lookup_rebuilt_target:
  "lookup (''segmentio'' # p) (rebuilt (Dir es))
     = lookup p (Dir (mirror_entries (analytics_entries (Dir es))))"
  by (simp add: rebuilt_def map_add_def delete_conv')

lemma lookup_source:
  "p \<noteq> [] \<Longrightarrow> lookup (''analytics'' # p) fs = lookup p (Dir (analytics_entries fs))"
  by (cases p) (auto simp: analytics_entries_def split: node.splits option.splits)

lemma root_dir: "isdir [] fs \<Longrightarrow> \<exists>es. fs = Dir es"
  by (cases fs) (auto simp: isdir_def)

lemma analytics_entries_rebuilt: "analytics_entries (rebuilt fs) = analytics_entries fs"
  by (cases fs) (auto simp: rebuilt_def analytics_entries_def map_add_def delete_conv'
      split: option.splits node.splits)

lemma delete_append: "AList.delete k (xs @ ys) = AList.delete k xs @ AList.delete k ys"
  by (simp add: AList.delete_eq)

lemma rebuilt_rebuilt: "rebuilt (rebuilt fs) = rebuilt fs"
proof (cases fs)
  case (File c)
  then show ?thesis by (simp add: rebuilt_def)
next
  case (Dir es)
  have "rebuilt (rebuilt fs)
      = Dir (AList.delete ''segmentio''
               (AList.delete ''segmentio'' es
                 @ [(''segmentio'', Dir (mirror_entries (analytics_entries fs)))])
             @ [(''segmentio'', Dir (mirror_entries (analytics_entries (rebuilt fs))))])"
    unfolding Dir by (simp add: rebuilt_def)
  then show ?thesis
    by (simp add: analytics_entries_rebuilt delete_append delete_idem) (simp add: rebuilt_def Dir)
qed

lemma regenerate_rebuilt:
  assumes "isdir [] fs"
    and "wf_node (Dir (analytics_entries fs))"
    and "\<forall>c. lookup [''segmentio''] fs \<noteq> Some (File c)"
    and "height_entries (analytics_entries fs) < fuel"
  shows "regenerate fuel fs = Some (Inr (), rebuilt fs)"
  using root_dir [OF assms(1)] assms(2-4) regenerate_ok by blast

lemma lookup_rebuilt:
  assumes "isdir [] fs"
  shows "lookup (''segmentio'' # p) (rebuilt fs) = lookup p (Dir (mirror_entries (analytics_entries fs)))"
  using root_dir [OF assms] lookup_rebuilt_target by blast

lemma regenerate_start:
  assumes "isdir [] fs" and "\<forall>c. lookup [''segmentio''] fs \<noteq> Some (File c)"
  shows "\<exists>fs2. lookup [''segmentio''] fs2 = Some (Dir [])
             \<and> regenerate fuel fs = create_segmentio_branded_package fuel [] fs2"
proof -
  obtain es where root: "fs = Dir es"
    using root_dir [OF assms(1)] by blast
  let ?es1 = "AList.delete ''segmentio'' es"
  let ?fs2 = "Dir (?es1 @ [(''segmentio'', Dir [])])"
  have none: "map_of ?es1 ''segmentio'' = None"
    by (simp add: delete_conv')
  have c: "(if isdir [''segmentio''] fs then rmtree [] ''segmentio'' fs else Inr fs) = Inr (Dir ?es1)"
    unfolding root using assms(2) root by (intro clear_target) (auto split: option.splits)
  have m: "mkdir [] ''segmentio'' (Dir ?es1) = Inr ?fs2"
    using mkdir_graft [of "[]" "Dir ?es1" ?es1 "''segmentio''"] none by simp
  have "regenerate fuel fs = create_segmentio_branded_package fuel [] ?fs2"
    unfolding regenerate_def by (simp only: c m sum.case)
  moreover have "lookup [''segmentio''] ?fs2 = Some (Dir [])"
    using none by (simp add: map_add_def)
  ultimately show ?thesis by blast
qed

section \<open>The rebuilt target tree\<close>

text \<open>
  Claim C6. In a working directory whose \<open>segmentio\<close> is absent or a directory, with a
  well-formed source package and a recursion bound above its height, the rebuild
  succeeds. The rewriter starts on a tree in which \<open>segmentio\<close> is an empty directory,
  and the tree it leaves holds under \<open>segmentio\<close> the image of the source entries and
  nothing else, whatever was there before: every entry below \<open>segmentio\<close> has an
  entry of the source package at the same relative path.
\<close>

theorem target_tree_regenerated:
  assumes "isdir [] fs"
    and "wf_node (Dir (analytics_entries fs))"
    and "\<forall>c. lookup [''segmentio''] fs \<noteq> Some (File c)"
    and "height_entries (analytics_entries fs) < fuel"
  shows "regenerate fuel fs = Some (Inr (), rebuilt fs)
       \<and> lookup [''segmentio''] (rebuilt fs)
           = Some (Dir (mirror_entries (analytics_entries fs)))
       \<and> (\<forall>p m. p \<noteq> [] \<and> lookup (''segmentio'' # p) (rebuilt fs) = Some m
                 \<longrightarrow> (\<exists>n. lookup (''analytics'' # p) fs = Some n))
       \<and> (\<exists>fs2. lookup [''segmentio''] fs2 = Some (Dir [])
                 \<and> regenerate fuel fs = create_segmentio_branded_package fuel [] fs2)"
proof -
  have 1: "regenerate fuel fs = Some (Inr (), rebuilt fs)"
    using assms by (rule regenerate_rebuilt)
  note 4 = regenerate_start [OF assms(1,3), of fuel]
  have 2: "lookup [''segmentio''] (rebuilt fs) = Some (Dir (mirror_entries (analytics_entries fs)))"
    using lookup_rebuilt [OF assms(1), of "[]"] by simp
  have 3: "\<exists>n. lookup (''analytics'' # p) fs = Some n"
    if "p \<noteq> []" "lookup (''segmentio'' # p) (rebuilt fs) = Some m" for p m
  proof -
    have "lookup p (Dir (mirror_entries (analytics_entries fs))) = Some m"
      using that(2) lookup_rebuilt [OF assms(1), of p] by simp
    then have "\<exists>n. lookup p (Dir (analytics_entries fs)) = Some n"
      using that(1) by (intro lookup_mirror_source)
    then show ?thesis
      using lookup_source [OF that(1), of fs] by simp
  qed
  show ?thesis using 1 2 3 4 by blast
qed

theorem target_tree_regenerated_witness:
  "regenerate 2 example_tree
     = Some (Inr (),
         Dir [(''analytics'',
                 Dir [(''client.py'', File ''import analytics''),
                      (''.cache'', Dir [(''old.py'', File ''import analytics'')]),
                      (''test'', Dir [(''data.txt'', File ''from analytics.'')])]),
              (''setup.py'', File ''setup()''),
              (''segmentio'',
                 Dir [(''client.py'', File ''import segmentio''),
                      (''test'', Dir [(''data.txt'', File ''from analytics.'')])])])"
  using target_tree_regenerated [of example_tree 2]
  by (simp add: example_tree_def isdir_def analytics_entries_def rebuilt_def endswith_def
      suffix_to_prefix rewrite_imports_def str_replace_def)

text \<open>
  Claim C8. Under the same conditions, a second rebuild on the result of the first
  returns the same tree; and a rebuild of any working directory with the same source
  entries, with any sufficient recursion bound and whatever its \<open>segmentio\<close> directory
  held, yields the same target tree.
\<close>

theorem rewrite_repeatable:
  assumes "isdir [] fs"
    and "wf_node (Dir (analytics_entries fs))"
    and "\<forall>c. lookup [''segmentio''] fs \<noteq> Some (File c)"
    and "height_entries (analytics_entries fs) < fuel"
  shows "regenerate fuel fs = Some (Inr (), rebuilt fs)
       \<and> regenerate fuel (rebuilt fs) = Some (Inr (), rebuilt fs)
       \<and> (\<forall>fs' fuel'. isdir [] fs' \<and> (\<forall>c. lookup [''segmentio''] fs' \<noteq> Some (File c))
               \<and> analytics_entries fs' = analytics_entries fs
               \<and> height_entries (analytics_entries fs) < fuel'
             \<longrightarrow> regenerate fuel' fs' = Some (Inr (), rebuilt fs')
                 \<and> lookup [''segmentio''] (rebuilt fs') = lookup [''segmentio''] (rebuilt fs))"
proof -
  have 1: "regenerate fuel fs = Some (Inr (), rebuilt fs)"
    using assms by (rule regenerate_rebuilt)
  obtain es where es: "fs = Dir es"
    using root_dir [OF assms(1)] by blast
  have d: "isdir [] (rebuilt fs)"
    by (simp add: es rebuilt_def isdir_def)
  have t: "\<forall>c. lookup [''segmentio''] (rebuilt fs) \<noteq> Some (File c)"
    using lookup_rebuilt [OF assms(1), of "[]"] by simp
  have "regenerate fuel (rebuilt fs) = Some (Inr (), rebuilt (rebuilt fs))"
    using d assms(2) t assms(4) unfolding analytics_entries_rebuilt [symmetric, of fs]
    by (rule regenerate_rebuilt)
  then have 2: "regenerate fuel (rebuilt fs) = Some (Inr (), rebuilt fs)"
    by (simp only: rebuilt_rebuilt)
  have 3: "regenerate fuel' fs' = Some (Inr (), rebuilt fs')
                 \<and> lookup [''segmentio''] (rebuilt fs') = lookup [''segmentio''] (rebuilt fs)"
    if h: "isdir [] fs'" "\<forall>c. lookup [''segmentio''] fs' \<noteq> Some (File c)"
      "analytics_entries fs' = analytics_entries fs"
      "height_entries (analytics_entries fs) < fuel'" for fs' fuel'
  proof -
    have "regenerate fuel' fs' = Some (Inr (), rebuilt fs')"
      using h(1) assms(2) h(2,4) unfolding h(3) [symmetric] by (rule regenerate_rebuilt)
    moreover have "lookup [''segmentio''] (rebuilt fs') = lookup [''segmentio''] (rebuilt fs)"
      using lookup_rebuilt [OF h(1), of "[]"] lookup_rebuilt [OF assms(1), of "[]"] h(3) by simp
    ultimately show ?thesis by blast
  qed
  show ?thesis using 1 2 3 by blast
qed

theorem rewrite_repeatable_witness:
  "regenerate 2 example_tree = Some (Inr (), rebuilt example_tree)
   \<and> regenerate 2 (rebuilt example_tree) = Some (Inr (), rebuilt example_tree)
   \<and> lookup [''segmentio'', ''client.py''] (rebuilt example_tree) = Some (File ''import segmentio'')"
  using rewrite_repeatable [of example_tree 2]
  by (simp add: example_tree_def isdir_def analytics_entries_def rebuilt_def endswith_def
      suffix_to_prefix rewrite_imports_def str_replace_def)

text \<open>
  Claim C10. The listing never returns a name that begins with a dot, and after a
  rebuild, which raises nothing, no path with a component that begins with a dot exists
  below \<open>segmentio\<close>.
\<close>

theorem dot_entries_skipped:
  assumes "isdir [] fs"
    and "wf_node (Dir (analytics_entries fs))"
    and "\<forall>c. lookup [''segmentio''] fs \<noteq> Some (File c)"
    and "height_entries (analytics_entries fs) < fuel"
  shows "regenerate fuel fs = Some (Inr (), rebuilt fs)
       \<and> (\<forall>p. (\<exists>x\<in>set p. prefix ''.'' x) \<longrightarrow> lookup (''segmentio'' # p) (rebuilt fs) = None)
       \<and> (\<forall>d x. x \<in> set (glob_star d fs) \<longrightarrow> \<not> prefix ''.'' x)"
proof -
  have 1: "regenerate fuel fs = Some (Inr (), rebuilt fs)"
    using assms by (rule regenerate_rebuilt)
  have 2: "lookup (''segmentio'' # p) (rebuilt fs) = None" if "\<exists>x\<in>set p. prefix ''.'' x" for p
    using lookup_rebuilt [OF assms(1), of p] lookup_mirror_hidden [OF that] by simp
  have 3: "\<not> prefix ''.'' x" if "x \<in> set (glob_star d fs)" for d x
    using that by (auto simp: glob_star_def split: option.splits node.splits)
  show ?thesis using 1 2 3 by blast
qed

theorem dot_entries_skipped_witness:
  "regenerate 2 example_tree = Some (Inr (), rebuilt example_tree)
   \<and> lookup [''analytics'', ''.cache'', ''old.py''] example_tree = Some (File ''import analytics'')
   \<and> lookup [''segmentio'', ''.cache'', ''old.py''] (rebuilt example_tree) = None
   \<and> lookup [''segmentio'', ''.cache''] (rebuilt example_tree) = None"
  using dot_entries_skipped [of example_tree 2]
  by (simp add: example_tree_def isdir_def analytics_entries_def rebuilt_def endswith_def
      suffix_to_prefix rewrite_imports_def str_replace_def)

section \<open>What is written for a source file\<close>

text \<open>
  Claim C1 speaks of every file of the source tree whose name ends in \<open>.py\<close>. The
  file \<open>.conf.py\<close> is one, and the rebuild writes nothing at \<open>segmentio/.conf.py\<close>:
  the listing leaves out the names that begin with a dot.
\<close>

theorem hidden_source_file_counterexample:
  "regenerate 1 (Dir [(''analytics'', Dir [(''.conf.py'', File ''import analytics'')])])
     = Some (Inr (), Dir [(''analytics'', Dir [(''.conf.py'', File ''import analytics'')]),
                          (''segmentio'', Dir [])])
   \<and> lookup [''segmentio'', ''.conf.py'']
        (Dir [(''analytics'', Dir [(''.conf.py'', File ''import analytics'')]),
              (''segmentio'', Dir [])]) = None"
  by (simp add: regenerate_def isdir_def mkdir_def glob_star_def numeral_eq_Suc)

text \<open>
  Claim C1, for the files that the listing reaches: after a rebuild, for every file of
  the source package on a path without a component that begins with a dot, the same
  path below \<open>segmentio\<close> holds the rewritten contents when the name ends in
  \<open>.py\<close> and the unchanged contents otherwise. The rewriting replaces every
  occurrence of \<open>import analytics\<close> by \<open>import segmentio\<close> and every occurrence of
  \<open>from analytics.\<close> by \<open>from segmentio.\<close>, the text on either side being rewritten
  on its own, and it returns a text without an occurrence unchanged.
\<close>

theorem visible_files_rewritten_or_copied:
  assumes "isdir [] fs"
    and "wf_node (Dir (analytics_entries fs))"
    and "\<forall>c. lookup [''segmentio''] fs \<noteq> Some (File c)"
    and "height_entries (analytics_entries fs) < fuel"
  shows "regenerate fuel fs = Some (Inr (), rebuilt fs)
       \<and> (\<forall>p c. p \<noteq> [] \<and> (\<forall>x\<in>set p. \<not> prefix ''.'' x)
                 \<and> lookup (''analytics'' # p) fs = Some (File c)
               \<longrightarrow> lookup (''segmentio'' # p) (rebuilt fs)
                     = Some (File (if endswith (last p) ''.py'' then rewrite_imports c else c)))
       \<and> (\<forall>a b. rewrite_imports (a @ ''import analytics'' @ b)
                   = rewrite_imports a @ ''import segmentio'' @ rewrite_imports b)
       \<and> (\<forall>a b. rewrite_imports (a @ ''from analytics.'' @ b)
                   = rewrite_imports a @ ''from segmentio.'' @ rewrite_imports b)
       \<and> (\<forall>c. \<not> contains ''import analytics'' c \<and> \<not> contains ''from analytics.'' c
               \<longrightarrow> rewrite_imports c = c)"
proof -
  have 1: "regenerate fuel fs = Some (Inr (), rebuilt fs)"
    using assms by (rule regenerate_rebuilt)
  have 2: "lookup (''segmentio'' # p) (rebuilt fs)
             = Some (File (if endswith (last p) ''.py'' then rewrite_imports c else c))"
    if h: "p \<noteq> []" "\<forall>x\<in>set p. \<not> prefix ''.'' x" "lookup (''analytics'' # p) fs = Some (File c)"
    for p c
  proof -
    have "lookup p (Dir (analytics_entries fs)) = Some (File c)"
      using h(3) lookup_source [OF h(1), of fs] by simp
    then have "lookup p (Dir (mirror_entries (analytics_entries fs)))
                 = Some (mirror (last p) (File c))"
      using h(1,2) by (intro lookup_mirror_visible)
    then show ?thesis
      using lookup_rebuilt [OF assms(1), of p] by simp
  qed
  show ?thesis
    using 1 2 rewrite_imports_bare rewrite_imports_from rewrite_imports_absent by blast
qed

theorem visible_files_rewritten_or_copied_witness:
  "regenerate 2 example_tree = Some (Inr (), rebuilt example_tree)
   \<and> lookup [''analytics'', ''client.py''] example_tree = Some (File ''import analytics'')
   \<and> lookup [''segmentio'', ''client.py''] (rebuilt example_tree) = Some (File ''import segmentio'')
   \<and> lookup [''analytics'', ''test'', ''data.txt''] example_tree = Some (File ''from analytics.'')
   \<and> lookup [''segmentio'', ''test'', ''data.txt''] (rebuilt example_tree)
       = Some (File ''from analytics.'')"
  using visible_files_rewritten_or_copied [of example_tree 2]
  by (simp add: example_tree_def isdir_def analytics_entries_def rebuilt_def endswith_def
      suffix_to_prefix rewrite_imports_def str_replace_def)

end
